theory Spec2Isabelle
  imports Complex_Main
begin

section \<open>Data model\<close>

text \<open>
  The program is \<^verbatim>\<open>improve_baseline_svhn.py\<close>: DP-SGD fine-tuning of a classifier on
  pool examples chosen by uncertainty. Its numbers are floating-point arrays; the model
  computes with exact reals, so rounding and overflow are outside it. The one NaN that
  the program meets on probabilities, the entropy of a row with a probability of 0, is
  modelled where it arises.

  An array is represented by its row-major flattening (what \<^verbatim>\<open>ravel\<close> returns), and its
  shape by its number of entries. A gradient tree is the list of its leaves in
  \<^verbatim>\<open>tree_flatten\<close> order; \<^verbatim>\<open>tree_unflatten\<close> with the same \<^verbatim>\<open>tree_def\<close> puts the
  leaves back, so it leaves this list as it is. A two-dimensional array (one row per pool
  example) is the list of its rows.
\<close>

type_synonym tensor = "real list"
type_synonym tree = "tensor list"

datatype error =
    AssertionError
  | IndexError
  | ValueError
  | TypeError
  | NameError
  | ZeroDivisionError

text \<open>The command-line flags that the modelled functions read.\<close>

record flags =
  flag_dpsgd :: bool
  flag_noise_multiplier :: real
  flag_l2_norm_clip :: real
  flag_batch_size :: int
  flag_epochs :: int
  flag_seed :: int
  flag_uncertain :: int
  flag_n_extra :: int


section \<open>The private gradient (\<^verbatim>\<open>private_grad\<close>, lines 140 to 166)\<close>

text \<open>\<^verbatim>\<open>np.linalg.norm\<close> of a vector: the square root of the sum of the squares.\<close>

definition linalg_norm :: "real list \<Rightarrow> real" where
  "linalg_norm v = sqrt (sum_list (map (\<lambda>x. x * x) v))"

text \<open>
  Lines 149 and 150: the norm of the list of the leaves' norms.
\<close>

definition total_grad_norm :: "tree \<Rightarrow> real" where
  "total_grad_norm nonempty_grads =
     linalg_norm (map (\<lambda>neg. linalg_norm neg) nonempty_grads)"

text \<open>
  Line 151: \<^verbatim>\<open>np.amax((total_grad_norm / l2_norm_clip, 1.))\<close>; \<^verbatim>\<open>stop_gradient\<close> changes
  no value.
\<close>

definition divisor :: "real \<Rightarrow> tree \<Rightarrow> real" where
  "divisor l2_norm_clip nonempty_grads =
     max (total_grad_norm nonempty_grads / l2_norm_clip) 1"

text \<open>
  \<^verbatim>\<open>_clipped_grad\<close>, lines 144 to 153. \<^verbatim>\<open>grad_loss\<close> is the differentiated loss of the
  network, which the library computes: it is a parameter, a function from the parameters
  and one example to a gradient tree.
\<close>

definition clipped_grad ::
  "(tree \<Rightarrow> 'ex \<Rightarrow> tree) \<Rightarrow> real \<Rightarrow> tree \<Rightarrow> 'ex \<Rightarrow> tree" where
  "clipped_grad grad_loss l2_norm_clip params single_example_batch =
     (let grads = grad_loss params single_example_batch;
          nonempty_grads = grads;
          d = divisor l2_norm_clip nonempty_grads;
          normalized_nonempty_grads = map (\<lambda>g. map (\<lambda>x. x / d) g) nonempty_grads
      in normalized_nonempty_grads)"

text \<open>
  \<^verbatim>\<open>tree_map\<close> applies a function to every leaf.
\<close>

definition tree_map :: "(tensor \<Rightarrow> tensor) \<Rightarrow> tree \<Rightarrow> tree" where
  "tree_map f t = map f t"

text \<open>
  Line 155: \<^verbatim>\<open>vmap\<close> maps the clipping over the examples of the batch. Its result is one
  tree whose leaves carry the batch axis in front; it is represented by the list of the
  per-example trees.
\<close>

definition vmap :: "('ex \<Rightarrow> tree) \<Rightarrow> 'ex list \<Rightarrow> tree list" where
  "vmap f batch = map f batch"

text \<open>
  Lines 160 and 161: \<^verbatim>\<open>tree_map(sum_, ...)\<close> with \<^verbatim>\<open>sum_ = np.sum(n, 0)\<close> sums every leaf
  along the batch axis. On the list of per-example trees this adds the trees leaf by leaf
  and entry by entry, starting from zero leaves (the sum along an axis of length 0 is the
  zero array); the gradient has the shapes of the parameters, which is where the zero
  leaves take theirs from.
\<close>

definition add_tensor :: "tensor \<Rightarrow> tensor \<Rightarrow> tensor" where
  "add_tensor a b = map2 (+) a b"

definition add_tree :: "tree \<Rightarrow> tree \<Rightarrow> tree" where
  "add_tree s t = map2 add_tensor s t"

definition zeros_like :: "tree \<Rightarrow> tree" where
  "zeros_like params = map (\<lambda>p. replicate (length p) 0) params"

definition tree_map_sum :: "tree \<Rightarrow> tree list \<Rightarrow> tree" where
  "tree_map_sum params stacked = foldl add_tree (zeros_like params) stacked"

text \<open>
  Line 157: \<^verbatim>\<open>noise_ = lambda n: n + std_dev * random.normal(rng, n.shape)\<close>. The library's
  \<^verbatim>\<open>random.normal\<close> is a parameter: \<open>normal rng shape i\<close> is entry \<open>i\<close> of the array that
  \<^verbatim>\<open>random.normal(rng, shape)\<close> returns, a function of the key and the shape.
\<close>

definition noise_fn ::
  "('key \<Rightarrow> nat \<Rightarrow> nat \<Rightarrow> real) \<Rightarrow> 'key \<Rightarrow> real \<Rightarrow> tensor \<Rightarrow> tensor" where
  "noise_fn normal rng std_dev n =
     map (\<lambda>i. n ! i + std_dev * normal rng (length n) i) [0..<length n]"

text \<open>Line 158: \<^verbatim>\<open>normalize_ = lambda n: n / float(batch_size)\<close>.\<close>

definition normalize_fn :: "int \<Rightarrow> tensor \<Rightarrow> tensor" where
  "normalize_fn batch_size n = map (\<lambda>x. x / real_of_int batch_size) n"

definition aggregated_clipped_grads ::
  "(tree \<Rightarrow> 'ex \<Rightarrow> tree) \<Rightarrow> tree \<Rightarrow> 'ex list \<Rightarrow> real \<Rightarrow> tree" where
  "aggregated_clipped_grads grad_loss params batch l2_norm_clip =
     (let px_clipped_grad_fn = vmap (clipped_grad grad_loss l2_norm_clip params)
      in tree_map_sum params (px_clipped_grad_fn batch))"

definition private_grad ::
  "(tree \<Rightarrow> 'ex \<Rightarrow> tree) \<Rightarrow> ('key \<Rightarrow> nat \<Rightarrow> nat \<Rightarrow> real) \<Rightarrow>
   tree \<Rightarrow> 'ex list \<Rightarrow> 'key \<Rightarrow> real \<Rightarrow> real \<Rightarrow> int \<Rightarrow> tree" where
  "private_grad grad_loss normal params batch rng l2_norm_clip noise_multiplier batch_size =
     (let std_dev = l2_norm_clip * noise_multiplier;
          aggregated = aggregated_clipped_grads grad_loss params batch l2_norm_clip;
          noised_aggregated_clipped_grads = tree_map (noise_fn normal rng std_dev) aggregated;
          normalized_noised_aggregated_clipped_grads =
            tree_map (normalize_fn batch_size) noised_aggregated_clipped_grads
      in normalized_noised_aggregated_clipped_grads)"

text \<open>
  A tree has the shapes of another when their leaves have the same sizes, one by one.
  Differentiation returns a gradient with the shapes of the parameters.
\<close>

definition same_shapes :: "tree \<Rightarrow> tree \<Rightarrow> bool" where
  "same_shapes g params \<longleftrightarrow> map length g = map length params"

text \<open>
  The mean of the clipped per-example gradients of a batch, written down on its own and
  not through the program's aggregation: entry \<open>i\<close> of leaf \<open>j\<close> is the sum over the
  examples of that entry of the example's clipped gradient, over the number of examples
  the batch holds. The program does not compute it; the short-batch property compares
  the result of \<open>private_grad\<close> with it.
\<close>

definition mean_clipped_grads ::
  "(tree \<Rightarrow> 'ex \<Rightarrow> tree) \<Rightarrow> tree \<Rightarrow> 'ex list \<Rightarrow> real \<Rightarrow> tree" where
  "mean_clipped_grads grad_loss params batch l2_norm_clip =
     map (\<lambda>j. map (\<lambda>i. (\<Sum>e\<leftarrow>batch. clipped_grad grad_loss l2_norm_clip params e ! j ! i)
                        / real (length batch))
                [0..<length (params ! j)])
       [0..<length params]"


section \<open>The privacy accountant (\<^verbatim>\<open>compute_epsilon\<close>, lines 174 to 181)\<close>

text \<open>\<^verbatim>\<open>np.linspace(start, stop, num)\<close>: \<open>num\<close> evenly spaced points, both ends included.\<close>

definition linspace :: "real \<Rightarrow> real \<Rightarrow> nat \<Rightarrow> real list" where
  "linspace start stop num =
     map (\<lambda>i. start + real i * ((stop - start) / real (num - 1))) [0..<num]"

text \<open>
  Line 178 adds a \<^verbatim>\<open>range\<close> to a list: \<^verbatim>\<open>list(np.linspace(1.1, 10.9, 99)) + range(11, 64)\<close>.
  What this does depends on the interpreter. In Python 3 \<^verbatim>\<open>range(11, 64)\<close> is a range
  object and not a list, and the \<^verbatim>\<open>+\<close> of a list accepts only a list: it raises
  TypeError, whatever the operands hold. In Python 2 \<^verbatim>\<open>range\<close> returns a list and the two
  are concatenated. The file is run by Python 3: it has no \<^verbatim>\<open>__future__\<close> imports, and
  the library it is written against supports Python 3 only at its date.
\<close>

datatype python = Python2 | Python3

definition list_add_range :: "python \<Rightarrow> real list \<Rightarrow> int \<Rightarrow> int \<Rightarrow> error + real list" where
  "list_add_range py xs start stop =
     (case py of
        Python2 \<Rightarrow> Inr (xs @ map real_of_int [start..stop - 1])
      | Python3 \<Rightarrow> Inl TypeError)"

text \<open>
  \<^verbatim>\<open>compute_rdp\<close> and \<^verbatim>\<open>get_privacy_spent\<close> belong to the accounting library and are
  parameters. The warnings issued so far are threaded through as a list:
  \<^verbatim>\<open>warnings.warn\<close> appends to it and returns. \<^verbatim>\<open>float(num_examples)\<close> is \<open>0.0\<close> for
  \<open>num_examples = 0\<close>, and Python's division by it raises ZeroDivisionError.
\<close>

definition compute_epsilon ::
  "python \<Rightarrow> flags \<Rightarrow> (real \<Rightarrow> real \<Rightarrow> int \<Rightarrow> real list \<Rightarrow> real list) \<Rightarrow>
   (real list \<Rightarrow> real list \<Rightarrow> real \<Rightarrow> real \<times> real \<times> real) \<Rightarrow>
   int \<Rightarrow> int \<Rightarrow> real \<Rightarrow> string list \<Rightarrow> (error + real) \<times> string list" where
  "compute_epsilon py F compute_rdp get_privacy_spent steps num_examples target_delta warned =
     (let warned' =
            (if real_of_int num_examples * target_delta > 1
             then warned @ [''Your delta might be too high.'']
             else warned)
      in if num_examples = 0 then (Inl ZeroDivisionError, warned')
         else
           let q = real_of_int (flag_batch_size F) / real_of_int num_examples
           in case list_add_range py (linspace (11 / 10) (109 / 10) 99) 11 64 of
                Inl e \<Rightarrow> (Inl e, warned')
              | Inr orders \<Rightarrow>
                  let rdp_const = compute_rdp q (flag_noise_multiplier F) steps orders;
                      (eps, _, _) = get_privacy_spent orders rdp_const target_delta
                  in (Inr eps, warned'))"


section \<open>Pool diagnostics and uncertainty sampling (\<^verbatim>\<open>main\<close>, lines 287 to 344)\<close>

text \<open>Apply a function that may raise to every element; the first error ends it.\<close>

fun map_err :: "('a \<Rightarrow> error + 'b) \<Rightarrow> 'a list \<Rightarrow> error + 'b list" where
  "map_err f [] = Inr []"
| "map_err f (x # xs) =
     (case f x of
        Inl e \<Rightarrow> Inl e
      | Inr y \<Rightarrow> (case map_err f xs of Inl e \<Rightarrow> Inl e | Inr ys \<Rightarrow> Inr (y # ys)))"

text \<open>
  \<^verbatim>\<open>argmax\<close> of one row: the first index of the largest entry; an empty row raises
  ValueError.
\<close>

fun argmax_scan :: "real \<Rightarrow> nat \<Rightarrow> nat \<Rightarrow> real list \<Rightarrow> nat" where
  "argmax_scan best best_i i [] = best_i"
| "argmax_scan best best_i i (y # ys) =
     (if best < y then argmax_scan y i (Suc i) ys else argmax_scan best best_i (Suc i) ys)"

definition argmax :: "real list \<Rightarrow> error + nat" where
  "argmax row = (case row of [] \<Rightarrow> Inl ValueError | x # xs \<Rightarrow> Inr (argmax_scan x 0 1 xs))"

definition argmax_axis1 :: "real list list \<Rightarrow> error + nat list" where
  "argmax_axis1 rows = map_err argmax rows"

text \<open>
  An elementwise comparison of two one-dimensional arrays, with broadcasting: equal
  lengths compare entry by entry, an array of length 1 is compared with every entry of
  the other one, and any other pair of lengths raises.
\<close>

definition broadcast_cmp ::
  "(nat \<Rightarrow> nat \<Rightarrow> bool) \<Rightarrow> nat list \<Rightarrow> nat list \<Rightarrow> error + bool list" where
  "broadcast_cmp cmp a b =
     (if length a = length b then Inr (map2 cmp a b)
      else if length a = 1 then Inr (map (\<lambda>y. cmp (hd a) y) b)
      else if length b = 1 then Inr (map (\<lambda>x. cmp x (hd b)) a)
      else Inl TypeError)"

text \<open>\<^verbatim>\<open>onp.where(cond)[0]\<close>: the indices at which the condition holds, ascending.\<close>

definition where_true :: "bool list \<Rightarrow> nat list" where
  "where_true cond = filter (\<lambda>i. cond ! i) [0..<length cond]"

text \<open>Lines 287 to 294.\<close>

definition pool_diagnostic ::
  "real list list \<Rightarrow> real list list \<Rightarrow> error + nat list \<times> nat list" where
  "pool_diagnostic pool_logits pool_labels =
     (case argmax_axis1 pool_labels of
        Inl e \<Rightarrow> Inl e
      | Inr pool_true_labels \<Rightarrow>
     (case argmax_axis1 pool_logits of
        Inl e \<Rightarrow> Inl e
      | Inr pool_predicted_labels \<Rightarrow>
     (case broadcast_cmp (\<lambda>t p. t = p) pool_true_labels pool_predicted_labels of
        Inl e \<Rightarrow> Inl e
      | Inr eq \<Rightarrow>
     (case broadcast_cmp (\<lambda>t p. t \<noteq> p) pool_true_labels pool_predicted_labels of
        Inl e \<Rightarrow> Inl e
      | Inr ne \<Rightarrow>
          let pool_correct_indices = where_true eq;
              pool_incorrect_indices = where_true ne
          in if length pool_correct_indices + length pool_incorrect_indices
                  = length pool_labels
             then Inr (pool_correct_indices, pool_incorrect_indices)
             else Inl AssertionError))))"

text \<open>
  A Python slice \<^verbatim>\<open>xs[:k]\<close>: the first \<open>k\<close> elements, and for a negative \<open>k\<close> all but
  the last \<open>-k\<close>.
\<close>

definition py_take :: "int \<Rightarrow> 'a list \<Rightarrow> 'a list" where
  "py_take k xs = (if 0 \<le> k then take (nat k) xs else take (length xs - nat (- k)) xs)"

text \<open>
  \<^verbatim>\<open>onp.argsort\<close> is a parameter of the sampler. What the library promises of its result
  is \<open>is_argsort\<close>: a list of all the indices, each once, along which the values ascend.
  The order it gives to equal values is its own.
\<close>

definition is_argsort :: "real list \<Rightarrow> nat list \<Rightarrow> bool" where
  "is_argsort vs p \<longleftrightarrow>
     distinct p \<and> set p = {..<length vs} \<and> sorted (map (\<lambda>i. vs ! i) p)"

text \<open>
  One argsort that keeps this promise, for evaluating the sampler on examples: the indices
  sorted by their values, equal values in the order of their indices.
\<close>

definition stable_argsort :: "real list \<Rightarrow> nat list" where
  "stable_argsort vs = sort_key (\<lambda>i. vs ! i) [0..<length vs]"

text \<open>
  Line 299: \<^verbatim>\<open>-onp.sum(pool_probs * onp.log(pool_probs), axis=1)\<close>. Here the floating
  point of the program shows: at a probability of 0 the product \<^verbatim>\<open>0.0 * log(0.0)\<close> is
  0 times minus infinity, which is NaN (the logarithm of a negative number is NaN too),
  and a sum with a NaN term is NaN. The entropy of a row is \<open>None\<close> where the program
  computes NaN, and \<open>Some\<close> of the value otherwise.
\<close>

definition pool_entropy :: "real list list \<Rightarrow> real option list" where
  "pool_entropy pool_probs =
     map (\<lambda>p. if list_ex (\<lambda>x. x \<le> 0) p then None
              else Some (- sum_list (map (\<lambda>x. x * ln x) p)))
       pool_probs"

text \<open>
  Line 303: \<^verbatim>\<open>onp.argsort\<close> of an array that may hold NaN. It puts the NaN entries last;
  on the entries that are numbers it is the parameter \<open>argsort\<close>. Several NaN entries
  are put here in the order of their indices, an order the library does not promise.
\<close>

definition argsort_nan_last :: "(real list \<Rightarrow> nat list) \<Rightarrow> real option list \<Rightarrow> nat list" where
  "argsort_nan_last argsort vals =
     (let numbers = filter (\<lambda>i. vals ! i \<noteq> None) [0..<length vals];
          nans = filter (\<lambda>i. vals ! i = None) [0..<length vals]
      in map (\<lambda>r. numbers ! r) (argsort (map (\<lambda>i. the (vals ! i)) numbers)) @ nans)"

text \<open>Lines 303 to 306: the indices sorted by entropy, reversed, and the first taken.\<close>

definition entropy_selection ::
  "(real list \<Rightarrow> nat list) \<Rightarrow> real option list \<Rightarrow> int \<Rightarrow> nat list" where
  "entropy_selection argsort entropy n_extra =
     (let pool_entropy_sorted_indices = argsort_nan_last argsort entropy
      in py_take n_extra (rev pool_entropy_sorted_indices))"

text \<open>
  Lines 299 to 310: the entropy branch. The two log lines take \<^verbatim>\<open>onp.min\<close> and
  \<^verbatim>\<open>onp.max\<close> of the entropies of the pool (line 301) and of the selected examples
  (lines 309 and 310); of an empty array they raise ValueError.
\<close>

definition entropy_indices ::
  "(real list \<Rightarrow> nat list) \<Rightarrow> real list list \<Rightarrow> int \<Rightarrow> error + nat list" where
  "entropy_indices argsort pool_probs n_extra =
     (let entropy = pool_entropy pool_probs
      in if entropy = [] then Inl ValueError
         else
           let indices = entropy_selection argsort entropy n_extra
           in if indices = [] then Inl ValueError else Inr indices)"

text \<open>
  Lines 315 and 316: every row sorted ascending, then its last entry minus the one before
  it. A row with fewer than two entries has no column \<open>-2\<close>: IndexError.
\<close>

definition row_diff :: "real list \<Rightarrow> error + real" where
  "row_diff row =
     (let sorted_row = sort row; n = length sorted_row
      in if n < 2 then Inl IndexError else Inr (sorted_row ! (n - 1) - sorted_row ! (n - 2)))"

definition pool_probs_diff :: "real list list \<Rightarrow> error + real list" where
  "pool_probs_diff pool_probs = map_err row_diff pool_probs"

text \<open>
  Lines 314 to 326: the difference (margin) branch. Python's \<^verbatim>\<open>min\<close> of an empty
  sequence raises ValueError (line 317), and so does \<^verbatim>\<open>onp.min\<close> of the margins of an
  empty selection in the last log line (line 325).
\<close>

definition difference_indices ::
  "(real list \<Rightarrow> nat list) \<Rightarrow> real list list \<Rightarrow> int \<Rightarrow> error + nat list" where
  "difference_indices argsort pool_probs n_extra =
     (case pool_probs_diff pool_probs of
        Inl e \<Rightarrow> Inl e
      | Inr margins \<Rightarrow>
          if margins = [] then Inl ValueError
          else if \<not> (min_list margins > 0) then Inl AssertionError
          else
            let indices = py_take n_extra (argsort margins)
            in if indices = [] then Inl ValueError else Inr indices)"

text \<open>
  The global generator of \<^verbatim>\<open>numpy.random\<close> is a piece of state of type \<open>'g\<close>, passed
  along. \<^verbatim>\<open>npr.seed(s)\<close> (line 187) replaces it by the state \<open>seeded s\<close> that the seed
  determines, and accepts seeds from \<open>0\<close> to \<open>2^32 - 1\<close> only. \<^verbatim>\<open>npr.permutation(n)\<close>
  (line 329) returns a permutation computed from the state, and the state after it; the
  library function \<open>permutation\<close> is a parameter.
\<close>

definition npr_seed :: "(int \<Rightarrow> 'g) \<Rightarrow> int \<Rightarrow> 'g \<Rightarrow> error + 'g" where
  "npr_seed seeded s g = (if 0 \<le> s \<and> s < 2 ^ 32 then Inr (seeded s) else Inl ValueError)"

text \<open>
  Lines 296 to 329: the three criteria. \<^verbatim>\<open>stax.softmax\<close> is a parameter, applied to
  every row. The flag is an integer, so it never equals one of the strings; with a value
  other than 0, 1 and 2 no branch assigns \<^verbatim>\<open>pool_uncertain_indices\<close> and line 334 raises
  a NameError.
\<close>

definition pool_uncertain_indices ::
  "(real list \<Rightarrow> real list) \<Rightarrow> (real list \<Rightarrow> nat list) \<Rightarrow> ('g \<Rightarrow> nat \<Rightarrow> nat list \<times> 'g) \<Rightarrow>
   flags \<Rightarrow> real list list \<Rightarrow> 'g \<Rightarrow> error + nat list \<times> 'g" where
  "pool_uncertain_indices softmax argsort permutation F pool_logits g =
     (let pool_probs = map softmax pool_logits;
          n_pool = length pool_logits
      in if flag_uncertain F = 0 then
           (case entropy_indices argsort pool_probs (flag_n_extra F) of
              Inl e \<Rightarrow> Inl e
            | Inr indices \<Rightarrow> Inr (indices, g))
         else if flag_uncertain F = 1 then
           (case difference_indices argsort pool_probs (flag_n_extra F) of
              Inl e \<Rightarrow> Inl e
            | Inr indices \<Rightarrow> Inr (indices, g))
         else if flag_uncertain F = 2 then
           (let (perm, g') = permutation g n_pool
            in Inr (py_take (flag_n_extra F) perm, g'))
         else Inl NameError)"

text \<open>
  \<^verbatim>\<open>main\<close> from line 187 to line 344, as far as the choice of the pool examples goes:
  the seeding of the global generator, the loading of data and checkpoint (\<open>loading\<close>,
  code outside this file, which may draw from the generator and so is a function on its
  state), the diagnostic, the criterion, and the assertion of line 344 that as many
  examples were picked as asked for.
\<close>

definition main_selection ::
  "(int \<Rightarrow> 'g) \<Rightarrow> ('g \<Rightarrow> 'g) \<Rightarrow> (real list \<Rightarrow> real list) \<Rightarrow> (real list \<Rightarrow> nat list) \<Rightarrow>
   ('g \<Rightarrow> nat \<Rightarrow> nat list \<times> 'g) \<Rightarrow> flags \<Rightarrow> real list list \<Rightarrow> real list list \<Rightarrow> 'g \<Rightarrow>
   error + nat list" where
  "main_selection seeded loading softmax argsort permutation F pool_logits pool_labels g0 =
     (case npr_seed seeded (flag_seed F) g0 of
        Inl e \<Rightarrow> Inl e
      | Inr g1 \<Rightarrow>
     (let g2 = loading g1
      in case pool_diagnostic pool_logits pool_labels of
           Inl e \<Rightarrow> Inl e
         | Inr _ \<Rightarrow>
        (case pool_uncertain_indices softmax argsort permutation F pool_logits g2 of
           Inl e \<Rightarrow> Inl e
         | Inr (indices, g3) \<Rightarrow>
             if flag_n_extra F = int (length indices) then Inr indices
             else Inl AssertionError)))"


section \<open>The updates and the epoch loop (\<^verbatim>\<open>main\<close>, lines 263 to 275 and 346 to 374)\<close>

text \<open>
  The library functions the training loop calls, as parameters: the differentiated loss
  (of the parameters and a batch, a list of examples), \<^verbatim>\<open>random.normal\<close>,
  \<^verbatim>\<open>random.PRNGKey\<close>, \<^verbatim>\<open>random.fold_in\<close>, and the optimizer's \<^verbatim>\<open>opt_update\<close> and
  \<^verbatim>\<open>get_params\<close>.
\<close>

record ('key, 'st, 'x) library =
  lib_grad_loss :: "tree \<Rightarrow> 'x list \<Rightarrow> tree"
  lib_normal :: "'key \<Rightarrow> nat \<Rightarrow> nat \<Rightarrow> real"
  lib_PRNGKey :: "int \<Rightarrow> 'key"
  lib_fold_in :: "'key \<Rightarrow> nat \<Rightarrow> 'key"
  lib_opt_update :: "nat \<Rightarrow> tree \<Rightarrow> 'st \<Rightarrow> 'st"
  lib_get_params :: "'st \<Rightarrow> tree"

text \<open>Lines 263 to 266.\<close>

definition update ::
  "('key, 'st, 'x) library \<Rightarrow> 'key \<Rightarrow> nat \<Rightarrow> 'st \<Rightarrow> 'x list \<Rightarrow> 'st" where
  "update L rng i opt_state batch =
     (let params = lib_get_params L opt_state
      in lib_opt_update L i (lib_grad_loss L params batch) opt_state)"

text \<open>
  Lines 268 to 275. The batch comes with a dummy dimension (line 371): it is the list of
  its single-example batches, over which \<^verbatim>\<open>vmap\<close> runs.
\<close>

definition private_update ::
  "('key, 'st, 'x) library \<Rightarrow> flags \<Rightarrow> 'key \<Rightarrow> nat \<Rightarrow> 'st \<Rightarrow> 'x list list \<Rightarrow> 'st" where
  "private_update L F rng i opt_state batch =
     (let params = lib_get_params L opt_state;
          rng' = lib_fold_in L rng i
      in lib_opt_update L i
           (private_grad (lib_grad_loss L) (lib_normal L) params batch rng'
              (flag_l2_norm_clip F) (flag_noise_multiplier F) (flag_batch_size F))
           opt_state)"

text \<open>
  Lines 365 to 374: the batches of one epoch, one update each, with the counter
  \<^verbatim>\<open>itercount\<close> stepping from the value it starts at. \<open>dummy_dim\<close> is what
  \<^verbatim>\<open>shape_as_image(b.X, b.Y, dummy_dim=True)\<close> makes of a batch.
\<close>

definition dummy_dim :: "'x list \<Rightarrow> 'x list list" where
  "dummy_dim b = map (\<lambda>x. [x]) b"

fun run_batches ::
  "('key, 'st, 'x) library \<Rightarrow> flags \<Rightarrow> 'key \<Rightarrow> nat \<Rightarrow> 'x list list \<Rightarrow> 'st \<Rightarrow> 'st" where
  "run_batches L F key itercount [] opt_state = opt_state"
| "run_batches L F key itercount (b # batches) opt_state =
     run_batches L F key (Suc itercount) batches
       (if flag_dpsgd F then private_update L F key itercount opt_state (dummy_dim b)
        else update L key itercount opt_state b)"

text \<open>
  Lines 360 and 361 run anew in every epoch: the counter starts at 0 and the key is
  \<^verbatim>\<open>random.PRNGKey(FLAGS.seed)\<close>. \<open>batches\<close> are the batches the minibatcher yields in
  this epoch.
\<close>

definition run_epoch ::
  "('key, 'st, 'x) library \<Rightarrow> flags \<Rightarrow> 'x list list \<Rightarrow> 'st \<Rightarrow> 'st" where
  "run_epoch L F batches opt_state =
     (let itercount = 0;
          key = lib_PRNGKey L (flag_seed F)
      in run_batches L F key itercount batches opt_state)"


section \<open>Properties of the clipping\<close>

lemma sum_squares_nonneg: "0 \<le> sum_list (map (\<lambda>x. x * x) (v::real list))"
  by (induction v) auto

lemma linalg_norm_nonneg: "0 \<le> linalg_norm v"
  by (simp add: linalg_norm_def sum_squares_nonneg)

lemma linalg_norm_square: "linalg_norm v * linalg_norm v = sum_list (map (\<lambda>x. x * x) v)"
  by (simp add: linalg_norm_def sum_squares_nonneg)

lemma sum_squares_concat:
  "(\<Sum>neg\<leftarrow>g. linalg_norm neg * linalg_norm neg) = sum_list (map (\<lambda>x. x * x) (concat g))"
  by (induction g) (simp_all add: linalg_norm_square)

lemma total_grad_norm_global: "total_grad_norm g = linalg_norm (concat g)"
  using sum_squares_concat [of g] by (simp add: total_grad_norm_def linalg_norm_def o_def)

lemma sum_squares_scaled:
  "(\<Sum>x\<leftarrow>v. (x / d) * (x / (d::real))) = sum_list (map (\<lambda>x. x * x) v) / (d * d)"
  by (induction v) (simp_all add: add_divide_distrib)

lemma linalg_norm_scaled:
  assumes "0 < d"
  shows "linalg_norm (map (\<lambda>x. x / d) v) = linalg_norm v / d"
proof -
  have "sqrt (d * d) = d" using assms by simp
  then show ?thesis
    using sum_squares_scaled [of d v]
    by (simp add: linalg_norm_def o_def real_sqrt_divide)
qed

lemma concat_scaled: "concat (map (\<lambda>g. map (\<lambda>x. x / (d::real)) g) t) = map (\<lambda>x. x / d) (concat t)"
  by (simp add: map_concat)

text \<open>
  Claim C2. For a clip norm above 0 and the gradient of any one example: the norm the
  clipping computes (the norm of the leaves' norms) is the one norm of all the entries of
  all the leaves taken as a single vector. When it is at most the clip norm, the divisor
  is 1 and the gradient tree is returned as it is. When it is above, the divisor is the
  norm over the clip norm, every entry is divided by it, and the norm of the clipped
  gradient is the clip norm itself.
\<close>

theorem clipped_grad_global_norm:
  fixes l2_norm_clip :: real
  assumes "0 < l2_norm_clip"
  shows "total_grad_norm (grad_loss params ex) = linalg_norm (concat (grad_loss params ex)) \<and>
    (total_grad_norm (grad_loss params ex) \<le> l2_norm_clip \<longrightarrow>
       divisor l2_norm_clip (grad_loss params ex) = 1 \<and>
       clipped_grad grad_loss l2_norm_clip params ex = grad_loss params ex) \<and>
    (l2_norm_clip < total_grad_norm (grad_loss params ex) \<longrightarrow>
       divisor l2_norm_clip (grad_loss params ex) =
         total_grad_norm (grad_loss params ex) / l2_norm_clip \<and>
       clipped_grad grad_loss l2_norm_clip params ex =
         map (\<lambda>g. map (\<lambda>x. x / (total_grad_norm (grad_loss params ex) / l2_norm_clip)) g)
           (grad_loss params ex) \<and>
       total_grad_norm (clipped_grad grad_loss l2_norm_clip params ex) = l2_norm_clip \<and>
       linalg_norm (concat (clipped_grad grad_loss l2_norm_clip params ex)) = l2_norm_clip)"
proof (intro conjI impI)
  let ?g = "grad_loss params ex"
  let ?N = "total_grad_norm ?g"
  show "?N = linalg_norm (concat ?g)" by (rule total_grad_norm_global)
  {
    assume le: "?N \<le> l2_norm_clip"
    then have "?N / l2_norm_clip \<le> 1" using assms by (simp add: divide_le_eq)
    then show d1: "divisor l2_norm_clip ?g = 1" by (simp add: divisor_def)
    show "clipped_grad grad_loss l2_norm_clip params ex = ?g"
      by (simp add: clipped_grad_def Let_def d1 map_idI)
  }
  {
    assume gt: "l2_norm_clip < ?N"
    then have "1 < ?N / l2_norm_clip" using assms by (simp add: less_divide_eq)
    then show d: "divisor l2_norm_clip ?g = ?N / l2_norm_clip" by (simp add: divisor_def)
    show c: "clipped_grad grad_loss l2_norm_clip params ex =
        map (\<lambda>g. map (\<lambda>x. x / (?N / l2_norm_clip)) g) ?g"
      by (simp add: clipped_grad_def Let_def d)
    have pos: "0 < ?N / l2_norm_clip" using gt assms by simp
    have "linalg_norm (concat (map (\<lambda>g. map (\<lambda>x. x / (?N / l2_norm_clip)) g) ?g)) =
        linalg_norm (concat ?g) / (?N / l2_norm_clip)"
      using linalg_norm_scaled [OF pos, of "concat ?g"] by (simp only: concat_scaled)
    also have "\<dots> = l2_norm_clip"
      using gt assms by (simp add: total_grad_norm_global [symmetric])
    finally show n: "linalg_norm (concat (clipped_grad grad_loss l2_norm_clip params ex)) = l2_norm_clip"
      by (simp only: c)
    show "total_grad_norm (clipped_grad grad_loss l2_norm_clip params ex) = l2_norm_clip"
      using n by (simp only: total_grad_norm_global)
  }
qed

lemma tgn_345: "total_grad_norm [[3, 0], [4]] = 5"
proof -
  have "sqrt (3 * 3 + 4 * 4) = sqrt (5 * 5)" by simp
  then show ?thesis by (simp add: total_grad_norm_def linalg_norm_def)
qed

theorem clipped_grad_global_norm_witness:
  "(0::real) < 1 \<and> (1::real) < total_grad_norm [[3, 0], [4]] \<and>
   clipped_grad (\<lambda>p e. [[3, 0], [4]]) 1 [[0, 0], [0]] () = [[3 / 5, 0], [4 / 5]] \<and>
   total_grad_norm (clipped_grad (\<lambda>p e. [[3, 0], [4]]) 1 [[0, 0], [0]] ()) = 1 \<and>
   total_grad_norm [[3, 0], [4]] \<le> 5 \<and>
   clipped_grad (\<lambda>p e. [[3, 0], [4]]) 5 [[0, 0], [0]] () = [[3, 0], [4]]"
proof -
  let ?gl = "\<lambda>(p::tree) (e::unit). [[3, 0], [4::real]]"
  have pos1: "(0::real) < 1" and pos5: "(0::real) < 5" by simp_all
  have above: "(1::real) < total_grad_norm (?gl [[0, 0], [0]] ())" by (simp add: tgn_345)
  have below: "total_grad_norm (?gl [[0, 0], [0]] ()) \<le> 5" by (simp add: tgn_345)
  have big: "clipped_grad ?gl 1 [[0, 0], [0]] () =
      map (\<lambda>g. map (\<lambda>x. x / (total_grad_norm (?gl [[0, 0], [0]] ()) / 1)) g) (?gl [[0, 0], [0]] ())"
    and norm1: "total_grad_norm (clipped_grad ?gl 1 [[0, 0], [0]] ()) = 1"
    using clipped_grad_global_norm [OF pos1, of ?gl "[[0, 0], [0]]" "()"] above by blast+
  have small: "clipped_grad ?gl 5 [[0, 0], [0]] () = ?gl [[0, 0], [0]] ()"
    using clipped_grad_global_norm [OF pos5, of ?gl "[[0, 0], [0]]" "()"] below by blast
  have big': "clipped_grad ?gl 1 [[0, 0], [0]] () = [[3 / 5, 0], [4 / 5]]"
    by (simp add: big tgn_345)
  show ?thesis
    using above below norm1 small big' by simp
qed


section \<open>Properties of the aggregation, the noise and the normalization\<close>

lemma same_shapes_length: "same_shapes t P \<Longrightarrow> length t = length P"
  unfolding same_shapes_def by (rule map_eq_imp_length_eq)

lemma same_shapes_nth:
  assumes "same_shapes t P" "j < length P"
  shows "length (t ! j) = length (P ! j)"
proof -
  have "map length t ! j = map length P ! j" using assms(1) by (simp add: same_shapes_def)
  then show ?thesis using assms same_shapes_length [OF assms(1)] by simp
qed

lemma same_shapes_clipped_grad:
  "same_shapes (grad_loss params e) params \<Longrightarrow>
   same_shapes (clipped_grad grad_loss C params e) params"
  by (simp add: same_shapes_def clipped_grad_def Let_def o_def)

lemma same_shapes_zeros_like: "same_shapes (zeros_like P) P"
  by (simp add: same_shapes_def zeros_like_def o_def)

lemma zeros_like_nth: "j < length P \<Longrightarrow> i < length (P ! j) \<Longrightarrow> zeros_like P ! j ! i = 0"
  by (simp add: zeros_like_def)

lemma same_shapes_add_tree:
  assumes "same_shapes s P" "same_shapes t P"
  shows "same_shapes (add_tree s t) P"
proof -
  have len: "length s = length P" "length t = length P"
    using assms by (simp_all add: same_shapes_length)
  have "map length (add_tree s t) = map length P"
  proof (rule nth_equalityI)
    show "length (map length (add_tree s t)) = length (map length P)"
      using len by (simp add: add_tree_def)
  next
    fix j assume "j < length (map length (add_tree s t))"
    then have j: "j < length P" using len by (simp add: add_tree_def)
    then show "map length (add_tree s t) ! j = map length P ! j"
      using len same_shapes_nth [OF assms(1) j] same_shapes_nth [OF assms(2) j]
      by (simp add: add_tree_def add_tensor_def)
  qed
  then show ?thesis by (simp add: same_shapes_def)
qed

lemma add_tree_nth:
  assumes "same_shapes s P" "same_shapes t P" "j < length P" "i < length (P ! j)"
  shows "add_tree s t ! j ! i = s ! j ! i + t ! j ! i"
  using assms same_shapes_length [OF assms(1)] same_shapes_length [OF assms(2)]
    same_shapes_nth [OF assms(1) assms(3)] same_shapes_nth [OF assms(2) assms(3)]
  by (simp add: add_tree_def add_tensor_def)

lemma foldl_add_tree:
  assumes "\<forall>t \<in> set ts. same_shapes t P" "same_shapes acc P"
  shows "same_shapes (foldl add_tree acc ts) P \<and>
    (\<forall>j < length P. \<forall>i < length (P ! j).
       foldl add_tree acc ts ! j ! i = acc ! j ! i + (\<Sum>t\<leftarrow>ts. t ! j ! i))"
  using assms
proof (induction ts arbitrary: acc)
  case Nil
  then show ?case by simp
next
  case (Cons t ts)
  have t: "same_shapes t P" using Cons.prems(1) by simp
  have acc': "same_shapes (add_tree acc t) P"
    using Cons.prems(2) t by (rule same_shapes_add_tree)
  have rest: "\<forall>u \<in> set ts. same_shapes u P" using Cons.prems(1) by simp
  from Cons.IH [OF rest acc'] show ?case
    using add_tree_nth [OF Cons.prems(2) t] by (simp add: add.assoc)
qed

lemma tree_map_sum_nth:
  assumes "\<forall>t \<in> set ts. same_shapes t P" "j < length P" "i < length (P ! j)"
  shows "tree_map_sum P ts ! j ! i = (\<Sum>t\<leftarrow>ts. t ! j ! i)"
  using foldl_add_tree [OF assms(1) same_shapes_zeros_like] assms(2,3)
  by (simp add: tree_map_sum_def zeros_like_nth)

lemma same_shapes_tree_map_sum:
  "\<forall>t \<in> set ts. same_shapes t P \<Longrightarrow> same_shapes (tree_map_sum P ts) P"
  using foldl_add_tree [OF _ same_shapes_zeros_like] by (simp add: tree_map_sum_def)

lemma noise_fn_zero: "noise_fn normal rng 0 n = n"
  by (simp add: noise_fn_def map_nth)

lemma tree_map_noise_zero: "tree_map (noise_fn normal rng 0) t = t"
  by (auto simp: tree_map_def noise_fn_zero intro: map_idI)

lemma private_grad_nth:
  assumes "same_shapes agg P" "j < length P" "i < length (P ! j)"
  shows "tree_map (normalize_fn B) (tree_map (noise_fn normal rng sd) agg) ! j ! i =
    (agg ! j ! i + sd * normal rng (length (P ! j)) i) / real_of_int B"
  using assms same_shapes_length [OF assms(1)] same_shapes_nth [OF assms(1,2)]
  by (simp add: tree_map_def normalize_fn_def noise_fn_def)

lemma add_tree_zeros_like:
  assumes "same_shapes t P"
  shows "add_tree (zeros_like P) t = t"
proof (rule nth_equalityI)
  have len: "length t = length P" using assms by (rule same_shapes_length)
  show l: "length (add_tree (zeros_like P) t) = length t"
    using len by (simp add: add_tree_def zeros_like_def)
  fix j assume "j < length (add_tree (zeros_like P) t)"
  then have j: "j < length P" using l len by simp
  have "map2 (+) (replicate (length (P ! j)) 0) (t ! j) = t ! j"
    using same_shapes_nth [OF assms j]
    by (intro nth_equalityI) simp_all
  then show "add_tree (zeros_like P) t ! j = t ! j"
    using j len by (simp add: add_tree_def zeros_like_def add_tensor_def)
qed

lemma tgn_3: "total_grad_norm [[3, 0], [0]] = 3"
  by (simp add: total_grad_norm_def linalg_norm_def)

lemma tgn_half: "total_grad_norm [[0, 3 / 10], [2 / 5]] = 1 / 2"
proof -
  have "sqrt (1 / 4) = 1 / 2" by (rule real_sqrt_unique) (simp_all add: power2_eq_square)
  then show ?thesis by (simp add: total_grad_norm_def linalg_norm_def)
qed

text \<open>
  Claim C1. For a clip norm above 0, a noise multiplier of at least 0 and a batch size
  above 0, \<open>private_grad\<close> is the composition, in this order, of: clipping every
  example's gradient, summing the clipped gradients over the batch leaf by leaf, adding
  to every leaf noise scaled by clip norm times noise multiplier, and dividing every
  entry by the batch size. Entry by entry (for gradients with the shapes of the
  parameters): the result is the sum over the batch of the clipped entries, plus clip norm
  times noise multiplier times the drawn normal entry, all divided by the batch size.
  With noise multiplier 0, batch size 2, clip norm 1 and two examples whose gradient norms
  are 3 and 1/2: the divisors are 3 and 1, the clipped norms 1 and 1/2, and the result is
  half the sum of the two clipped gradients, their plain average.
\<close>

theorem private_grad_order:
  fixes l2_norm_clip noise_multiplier :: real and batch_size :: int
  assumes "0 < l2_norm_clip" "0 \<le> noise_multiplier" "0 < batch_size"
  shows "private_grad grad_loss normal params batch rng l2_norm_clip noise_multiplier batch_size =
      tree_map (normalize_fn batch_size)
        (tree_map (noise_fn normal rng (l2_norm_clip * noise_multiplier))
          (tree_map_sum params (vmap (clipped_grad grad_loss l2_norm_clip params) batch))) \<and>
    ((\<forall>e \<in> set batch. same_shapes (grad_loss params e) params) \<longrightarrow>
       (\<forall>j < length params. \<forall>i < length (params ! j).
          private_grad grad_loss normal params batch rng l2_norm_clip noise_multiplier batch_size
            ! j ! i =
          ((\<Sum>e\<leftarrow>batch. clipped_grad grad_loss l2_norm_clip params e ! j ! i)
            + (l2_norm_clip * noise_multiplier) * normal rng (length (params ! j)) i)
          / real_of_int batch_size)) \<and>
    (l2_norm_clip = 1 \<and> noise_multiplier = 0 \<and> batch_size = 2 \<and> batch = [e1, e2] \<and>
     same_shapes (grad_loss params e1) params \<and> same_shapes (grad_loss params e2) params \<and>
     total_grad_norm (grad_loss params e1) = 3 \<and> total_grad_norm (grad_loss params e2) = 1 / 2 \<longrightarrow>
       divisor l2_norm_clip (grad_loss params e1) = 3 \<and>
       divisor l2_norm_clip (grad_loss params e2) = 1 \<and>
       clipped_grad grad_loss l2_norm_clip params e1 =
         map (\<lambda>g. map (\<lambda>x. x / 3) g) (grad_loss params e1) \<and>
       clipped_grad grad_loss l2_norm_clip params e2 = grad_loss params e2 \<and>
       total_grad_norm (clipped_grad grad_loss l2_norm_clip params e1) = 1 \<and>
       total_grad_norm (clipped_grad grad_loss l2_norm_clip params e2) = 1 / 2 \<and>
       private_grad grad_loss normal params batch rng l2_norm_clip noise_multiplier batch_size =
         tree_map (\<lambda>leaf. map (\<lambda>x. x / 2) leaf)
           (add_tree (clipped_grad grad_loss l2_norm_clip params e1)
                     (clipped_grad grad_loss l2_norm_clip params e2)))"
proof (intro conjI)
  let ?clip = "clipped_grad grad_loss l2_norm_clip params"
  let ?agg = "tree_map_sum params (vmap ?clip batch)"
  show order: "private_grad grad_loss normal params batch rng l2_norm_clip noise_multiplier batch_size =
      tree_map (normalize_fn batch_size)
        (tree_map (noise_fn normal rng (l2_norm_clip * noise_multiplier)) ?agg)"
    by (simp add: private_grad_def aggregated_clipped_grads_def Let_def)
  show "(\<forall>e \<in> set batch. same_shapes (grad_loss params e) params) \<longrightarrow>
       (\<forall>j < length params. \<forall>i < length (params ! j).
          private_grad grad_loss normal params batch rng l2_norm_clip noise_multiplier batch_size
            ! j ! i =
          ((\<Sum>e\<leftarrow>batch. ?clip e ! j ! i)
            + (l2_norm_clip * noise_multiplier) * normal rng (length (params ! j)) i)
          / real_of_int batch_size)"
  proof (intro impI allI)
    fix j i
    assume shapes: "\<forall>e \<in> set batch. same_shapes (grad_loss params e) params"
      and j: "j < length params" and i: "i < length (params ! j)"
    have clipped: "\<forall>t \<in> set (vmap ?clip batch). same_shapes t params"
      using shapes by (auto simp: vmap_def same_shapes_clipped_grad)
    have "?agg ! j ! i = (\<Sum>t\<leftarrow>vmap ?clip batch. t ! j ! i)"
      using clipped j i by (rule tree_map_sum_nth)
    also have "\<dots> = (\<Sum>e\<leftarrow>batch. ?clip e ! j ! i)"
      by (simp add: vmap_def o_def)
    finally have agg: "?agg ! j ! i = (\<Sum>e\<leftarrow>batch. ?clip e ! j ! i)" .
    show "private_grad grad_loss normal params batch rng l2_norm_clip noise_multiplier batch_size
            ! j ! i =
          ((\<Sum>e\<leftarrow>batch. ?clip e ! j ! i)
            + (l2_norm_clip * noise_multiplier) * normal rng (length (params ! j)) i)
          / real_of_int batch_size"
      using private_grad_nth [OF same_shapes_tree_map_sum [OF clipped] j i] agg
      by (simp only: order)
  qed
  show "l2_norm_clip = 1 \<and> noise_multiplier = 0 \<and> batch_size = 2 \<and> batch = [e1, e2] \<and>
     same_shapes (grad_loss params e1) params \<and> same_shapes (grad_loss params e2) params \<and>
     total_grad_norm (grad_loss params e1) = 3 \<and> total_grad_norm (grad_loss params e2) = 1 / 2 \<longrightarrow>
       divisor l2_norm_clip (grad_loss params e1) = 3 \<and>
       divisor l2_norm_clip (grad_loss params e2) = 1 \<and>
       ?clip e1 = map (\<lambda>g. map (\<lambda>x. x / 3) g) (grad_loss params e1) \<and>
       ?clip e2 = grad_loss params e2 \<and>
       total_grad_norm (?clip e1) = 1 \<and>
       total_grad_norm (?clip e2) = 1 / 2 \<and>
       private_grad grad_loss normal params batch rng l2_norm_clip noise_multiplier batch_size =
         tree_map (\<lambda>leaf. map (\<lambda>x. x / 2) leaf) (add_tree (?clip e1) (?clip e2))"
  proof (intro impI, elim conjE)
    assume C: "l2_norm_clip = 1" and s: "noise_multiplier = 0" and B: "batch_size = 2"
      and b: "batch = [e1, e2]"
      and sh1: "same_shapes (grad_loss params e1) params"
      and sh2: "same_shapes (grad_loss params e2) params"
      and n1: "total_grad_norm (grad_loss params e1) = 3"
      and n2: "total_grad_norm (grad_loss params e2) = 1 / 2"
    have d1: "divisor l2_norm_clip (grad_loss params e1) = 3"
      by (simp add: divisor_def C n1)
    have d2: "divisor l2_norm_clip (grad_loss params e2) = 1"
      by (simp add: divisor_def C n2)
    have c1: "?clip e1 = map (\<lambda>g. map (\<lambda>x. x / 3) g) (grad_loss params e1)"
      by (simp add: clipped_grad_def Let_def d1)
    have c2: "?clip e2 = grad_loss params e2"
      by (simp add: clipped_grad_def Let_def d2 map_idI)
    have m1: "total_grad_norm (?clip e1) = 1"
      using linalg_norm_scaled [of 3 "concat (grad_loss params e1)"] n1
      by (simp add: c1 total_grad_norm_global concat_scaled)
    have m2: "total_grad_norm (?clip e2) = 1 / 2"
      by (simp add: c2 n2)
    have "?agg = add_tree (add_tree (zeros_like params) (?clip e1)) (?clip e2)"
      by (simp add: b vmap_def tree_map_sum_def)
    also have "\<dots> = add_tree (?clip e1) (?clip e2)"
      using add_tree_zeros_like [OF same_shapes_clipped_grad [of grad_loss params e1, OF sh1]]
      by simp
    finally have agg: "?agg = add_tree (?clip e1) (?clip e2)" .
    note order
    also have "tree_map (normalize_fn batch_size)
        (tree_map (noise_fn normal rng (l2_norm_clip * noise_multiplier)) ?agg) =
        tree_map (normalize_fn batch_size) (add_tree (?clip e1) (?clip e2))"
      by (simp add: s tree_map_noise_zero agg)
    also have "\<dots> = tree_map (\<lambda>leaf. map (\<lambda>x. x / 2) leaf) (add_tree (?clip e1) (?clip e2))"
      by (simp add: tree_map_def normalize_fn_def B)
    finally show "divisor l2_norm_clip (grad_loss params e1) = 3 \<and>
       divisor l2_norm_clip (grad_loss params e2) = 1 \<and>
       ?clip e1 = map (\<lambda>g. map (\<lambda>x. x / 3) g) (grad_loss params e1) \<and>
       ?clip e2 = grad_loss params e2 \<and>
       total_grad_norm (?clip e1) = 1 \<and>
       total_grad_norm (?clip e2) = 1 / 2 \<and>
       private_grad grad_loss normal params batch rng l2_norm_clip noise_multiplier batch_size =
         tree_map (\<lambda>leaf. map (\<lambda>x. x / 2) leaf) (add_tree (?clip e1) (?clip e2))"
      using d1 d2 c1 c2 m1 m2 by blast
  qed
qed

theorem private_grad_order_witness:
  "(0::real) < 1 \<and> (0::real) \<le> 0 \<and> (0::int) < 2 \<and>
   same_shapes [[3, 0], [0]] [[0, 0], [0]] \<and> same_shapes [[0, 3 / 10], [2 / 5]] [[0, 0], [0]] \<and>
   total_grad_norm [[3, 0], [0]] = 3 \<and> total_grad_norm [[0, 3 / 10], [2 / 5]] = 1 / 2 \<and>
   private_grad (\<lambda>p e. if e then [[3, 0], [0]] else [[0, 3 / 10], [2 / 5]])
     (\<lambda>k s i. 7) [[0, 0], [0]] [True, False] (0::nat) 1 0 2 = [[1 / 2, 3 / 20], [1 / 5]] \<and>
   private_grad (\<lambda>p e. if e then [[3, 0], [0]] else [[0, 3 / 10], [2 / 5]])
     (\<lambda>k s i. 7) [[0, 0], [0]] [True, False] (0::nat) 1 0 2 ! 0 ! 1 = 3 / 20"
proof -
  let ?gl = "\<lambda>(p::tree) e. if e then [[3, 0], [0::real]] else [[0, 3 / 10], [2 / 5]]"
  let ?P = "[[0, 0], [0::real]]"
  let ?nrm = "\<lambda>(k::nat) (s::nat) (i::nat). 7::real"
  have h: "(0::real) < 1" "(0::real) \<le> 0" "(0::int) < 2" by simp_all
  have sh: "same_shapes (?gl ?P True) ?P" "same_shapes (?gl ?P False) ?P"
    by (simp_all add: same_shapes_def)
  have n: "total_grad_norm (?gl ?P True) = 3" "total_grad_norm (?gl ?P False) = 1 / 2"
    by (simp_all add: tgn_3 tgn_half)
  note t = private_grad_order [OF h, of ?gl ?nrm ?P "[True, False]" 0 True False]
  have c1: "clipped_grad ?gl 1 ?P True = map (\<lambda>g. map (\<lambda>x. x / 3) g) (?gl ?P True)"
    and c2: "clipped_grad ?gl 1 ?P False = ?gl ?P False"
    and r: "private_grad ?gl ?nrm ?P [True, False] 0 1 0 2 =
       tree_map (\<lambda>leaf. map (\<lambda>x. x / 2) leaf)
         (add_tree (clipped_grad ?gl 1 ?P True) (clipped_grad ?gl 1 ?P False))"
    using t sh n by blast+
  have r': "private_grad ?gl ?nrm ?P [True, False] 0 1 0 2 = [[1 / 2, 3 / 20], [1 / 5]]"
    by (simp add: r c1 c2 tree_map_def add_tree_def add_tensor_def)
  show ?thesis using sh n r' by simp
qed

lemma tree_eqI:
  assumes "same_shapes s P" "same_shapes t P"
    and "\<And>j i. j < length P \<Longrightarrow> i < length (P ! j) \<Longrightarrow> s ! j ! i = t ! j ! i"
  shows "s = t"
proof (rule nth_equalityI)
  show "length s = length t"
    using assms(1,2) by (simp add: same_shapes_length)
  fix j assume "j < length s"
  then have j: "j < length P" using assms(1) by (simp add: same_shapes_length)
  show "s ! j = t ! j"
  proof (rule nth_equalityI)
    show "length (s ! j) = length (t ! j)"
      using same_shapes_nth [OF assms(1) j] same_shapes_nth [OF assms(2) j] by simp
    fix i assume "i < length (s ! j)"
    then have "i < length (P ! j)" using same_shapes_nth [OF assms(1) j] by simp
    then show "s ! j ! i = t ! j ! i" using j by (rule assms(3) [rotated])
  qed
qed

lemma same_shapes_mean_clipped_grads:
  "same_shapes (mean_clipped_grads grad_loss params batch C) params"
proof -
  have "map (\<lambda>j. length (params ! j)) [0..<length params] = map length params"
    by (intro nth_equalityI) simp_all
  then show ?thesis by (simp add: same_shapes_def mean_clipped_grads_def o_def)
qed

lemma mean_clipped_grads_nth:
  "j < length params \<Longrightarrow> i < length (params ! j) \<Longrightarrow>
   mean_clipped_grads grad_loss params batch C ! j ! i =
     (\<Sum>e\<leftarrow>batch. clipped_grad grad_loss C params e ! j ! i) / real (length batch)"
  by (simp add: mean_clipped_grads_def)

lemma same_shapes_map_leaves: "same_shapes t P \<Longrightarrow> same_shapes (tree_map (\<lambda>leaf. map f leaf) t) P"
  by (simp add: same_shapes_def tree_map_def o_def)

lemma same_shapes_noise: "same_shapes t P \<Longrightarrow> same_shapes (tree_map (noise_fn normal rng sd) t) P"
  by (simp add: same_shapes_def tree_map_def o_def noise_fn_def)

lemma same_shapes_normalize: "same_shapes t P \<Longrightarrow> same_shapes (tree_map (normalize_fn B) t) P"
  by (simp add: same_shapes_def tree_map_def o_def normalize_fn_def)

lemma same_shapes_aggregated:
  assumes "\<forall>e \<in> set batch. same_shapes (grad_loss params e) params"
  shows "same_shapes (aggregated_clipped_grads grad_loss params batch C) params"
  unfolding aggregated_clipped_grads_def Let_def
  by (rule same_shapes_tree_map_sum) (use assms in \<open>auto simp: vmap_def same_shapes_clipped_grad\<close>)

lemma same_shapes_private_grad:
  assumes "\<forall>e \<in> set batch. same_shapes (grad_loss params e) params"
  shows "same_shapes (private_grad grad_loss normal params batch rng C sigma B) params"
  unfolding private_grad_def Let_def
  by (intro same_shapes_normalize same_shapes_noise same_shapes_aggregated assms)

lemma aggregated_nth:
  assumes "\<forall>e \<in> set batch. same_shapes (grad_loss params e) params"
    and "j < length params" "i < length (params ! j)"
  shows "aggregated_clipped_grads grad_loss params batch C ! j ! i =
    (\<Sum>e\<leftarrow>batch. clipped_grad grad_loss C params e ! j ! i)"
proof -
  have "\<forall>t \<in> set (vmap (clipped_grad grad_loss C params) batch). same_shapes t params"
    using assms(1) by (auto simp: vmap_def same_shapes_clipped_grad)
  from tree_map_sum_nth [OF this assms(2,3)] show ?thesis
    by (simp add: aggregated_clipped_grads_def vmap_def o_def)
qed


text \<open>
  Claim C10. For a batch that holds \<open>n\<close> examples, with \<open>0 < n\<close> and \<open>n\<close> below the
  batch size \<open>B\<close> handed to \<open>private_grad\<close> (and gradients with the shapes of the
  parameters): the noised sum is divided by \<open>B\<close>, not by \<open>n\<close>. So without noise the
  result is the mean of the clipped per-example gradients, their sum over \<open>n\<close>, scaled by
  \<open>n / B\<close>, which is below 1; with noise, every entry is \<open>n / B\<close> times the sum over the
  batch of that entry of the clipped gradients over \<open>n\<close>, plus the noise over \<open>B\<close>.
\<close>

theorem short_batch_divided_by_batch_size:
  fixes l2_norm_clip noise_multiplier :: real and batch_size :: int
  assumes "0 < l2_norm_clip" "0 < batch_size" "batch \<noteq> []" "int (length batch) < batch_size"
    and "\<forall>e \<in> set batch. same_shapes (grad_loss params e) params"
  shows "private_grad grad_loss normal params batch rng l2_norm_clip noise_multiplier batch_size =
      tree_map (\<lambda>n. map (\<lambda>x. x / real_of_int batch_size) n)
        (tree_map (noise_fn normal rng (l2_norm_clip * noise_multiplier))
          (aggregated_clipped_grads grad_loss params batch l2_norm_clip)) \<and>
    private_grad grad_loss normal params batch rng l2_norm_clip 0 batch_size =
      tree_map (\<lambda>leaf. map (\<lambda>x. real (length batch) / real_of_int batch_size * x) leaf)
        (mean_clipped_grads grad_loss params batch l2_norm_clip) \<and>
    real (length batch) / real_of_int batch_size < 1 \<and>
    (\<forall>j < length params. \<forall>i < length (params ! j).
       mean_clipped_grads grad_loss params batch l2_norm_clip ! j ! i =
         (\<Sum>e\<leftarrow>batch. clipped_grad grad_loss l2_norm_clip params e ! j ! i)
           / real (length batch) \<and>
       private_grad grad_loss normal params batch rng l2_norm_clip noise_multiplier batch_size ! j ! i =
         real (length batch) / real_of_int batch_size
           * ((\<Sum>e\<leftarrow>batch. clipped_grad grad_loss l2_norm_clip params e ! j ! i)
                / real (length batch))
         + l2_norm_clip * noise_multiplier * normal rng (length (params ! j)) i
           / real_of_int batch_size)"
proof -
  let ?agg = "aggregated_clipped_grads grad_loss params batch l2_norm_clip"
  let ?mean = "mean_clipped_grads grad_loss params batch l2_norm_clip"
  let ?n = "real (length batch)"
  let ?B = "real_of_int batch_size"
  have n: "?n \<noteq> 0" using assms(3) by simp
  have agg_shapes: "same_shapes ?agg params"
    using assms(5) by (rule same_shapes_aggregated)
  have agg_nth: "?agg ! j ! i = (\<Sum>e\<leftarrow>batch. clipped_grad grad_loss l2_norm_clip params e ! j ! i)"
    if "j < length params" "i < length (params ! j)" for j i
    using assms(5) that by (rule aggregated_nth)
  have nf: "normalize_fn batch_size = (\<lambda>n. map (\<lambda>x. x / ?B) n)"
    by (rule ext) (simp add: normalize_fn_def)
  have unfolded: "private_grad grad_loss normal params batch rng l2_norm_clip sigma batch_size =
      tree_map (\<lambda>n. map (\<lambda>x. x / ?B) n)
        (tree_map (noise_fn normal rng (l2_norm_clip * sigma)) ?agg)" for sigma
    by (simp add: private_grad_def Let_def nf)
  have entry: "private_grad grad_loss normal params batch rng l2_norm_clip sigma batch_size ! j ! i =
      ?n / ?B * ((\<Sum>e\<leftarrow>batch. clipped_grad grad_loss l2_norm_clip params e ! j ! i) / ?n)
      + l2_norm_clip * sigma * normal rng (length (params ! j)) i / ?B"
    if "j < length params" "i < length (params ! j)" for j i sigma
  proof -
    have "private_grad grad_loss normal params batch rng l2_norm_clip sigma batch_size ! j ! i =
        (?agg ! j ! i + l2_norm_clip * sigma * normal rng (length (params ! j)) i) / ?B"
      using private_grad_nth [OF agg_shapes that, of batch_size normal rng]
      by (simp add: private_grad_def Let_def)
    then show ?thesis
      using n by (simp add: agg_nth [OF that] add_divide_distrib)
  qed
  have whole: "private_grad grad_loss normal params batch rng l2_norm_clip 0 batch_size =
      tree_map (\<lambda>leaf. map (\<lambda>x. ?n / ?B * x) leaf) ?mean"
  proof (rule tree_eqI [where P = params])
    show "same_shapes (private_grad grad_loss normal params batch rng l2_norm_clip 0 batch_size) params"
      using assms(5) by (rule same_shapes_private_grad)
    show "same_shapes (tree_map (\<lambda>leaf. map (\<lambda>x. ?n / ?B * x) leaf) ?mean) params"
      by (intro same_shapes_map_leaves same_shapes_mean_clipped_grads)
    fix j i assume ji: "j < length params" "i < length (params ! j)"
    have "tree_map (\<lambda>leaf. map (\<lambda>x. ?n / ?B * x) leaf) ?mean ! j ! i = ?n / ?B * (?mean ! j ! i)"
      using ji same_shapes_length [OF same_shapes_mean_clipped_grads, of grad_loss params batch l2_norm_clip]
        same_shapes_nth [OF same_shapes_mean_clipped_grads ji(1), of grad_loss batch l2_norm_clip]
      by (simp add: tree_map_def)
    then show "private_grad grad_loss normal params batch rng l2_norm_clip 0 batch_size ! j ! i =
        tree_map (\<lambda>leaf. map (\<lambda>x. ?n / ?B * x) leaf) ?mean ! j ! i"
      using entry [OF ji, of 0] by (simp add: mean_clipped_grads_nth [OF ji])
  qed
  have less: "?n / ?B < 1" using assms(2,4) by simp
  show ?thesis
    using unfolded [of noise_multiplier] whole less entry mean_clipped_grads_nth by blast
qed

theorem short_batch_divided_by_batch_size_witness:
  "(0::real) < 1 \<and> (0::int) < 4 \<and> [True, False] \<noteq> [] \<and> int (length [True, False]) < 4 \<and>
   same_shapes [[3, 0], [0]] [[0, 0], [0]] \<and> same_shapes [[0, 3 / 10], [2 / 5]] [[0, 0], [0]] \<and>
   clipped_grad (\<lambda>p e. if e then [[3, 0], [0]] else [[0, 3 / 10], [2 / 5]]) 1 [[0, 0], [0]] True
     = [[1, 0], [0]] \<and>
   clipped_grad (\<lambda>p e. if e then [[3, 0], [0]] else [[0, 3 / 10], [2 / 5]]) 1 [[0, 0], [0]] False
     = [[0, 3 / 10], [2 / 5]] \<and>
   mean_clipped_grads (\<lambda>p e. if e then [[3, 0], [0]] else [[0, 3 / 10], [2 / 5]])
        [[0, 0], [0]] [True, False] 1 = [[1 / 2, 3 / 20], [1 / 5]] \<and>
   private_grad (\<lambda>p e. if e then [[3, 0], [0]] else [[0, 3 / 10], [2 / 5]])
     (\<lambda>k s i. 7) [[0, 0], [0]] [True, False] (0::nat) 1 0 4 = [[1 / 4, 3 / 40], [1 / 10]]"
proof -
  let ?gl = "\<lambda>(p::tree) e. if e then [[3, 0], [0::real]] else [[0, 3 / 10], [2 / 5]]"
  let ?P = "[[0, 0], [0::real]]"
  let ?nrm = "\<lambda>(k::nat) (s::nat) (i::nat). 7::real"
  have h: "(0::real) < 1" "(0::int) < 4" "[True, False] \<noteq> []" "int (length [True, False]) < 4"
    "\<forall>e \<in> set [True, False]. same_shapes (?gl ?P e) ?P"
    by (simp_all add: same_shapes_def)
  note t = short_batch_divided_by_batch_size [where grad_loss = ?gl and normal = ?nrm
      and params = ?P and rng = 0 and noise_multiplier = 0, OF h]
  have c: "clipped_grad ?gl 1 ?P True = [[1, 0], [0]]"
    "clipped_grad ?gl 1 ?P False = [[0, 3 / 10], [2 / 5]]"
    by (simp_all add: clipped_grad_def divisor_def tgn_3 tgn_half)
  have m: "mean_clipped_grads ?gl ?P [True, False] 1 = [[1 / 2, 3 / 20], [1 / 5]]"
    by (simp add: mean_clipped_grads_def c upt_rec)
  have r: "private_grad ?gl ?nrm ?P [True, False] 0 1 0 4 =
      tree_map (\<lambda>leaf. map (\<lambda>x. real (length [True, False]) / real_of_int 4 * x) leaf)
        (mean_clipped_grads ?gl ?P [True, False] 1)"
    using t by blast
  have r': "private_grad ?gl ?nrm ?P [True, False] 0 1 0 4 = [[1 / 4, 3 / 40], [1 / 10]]"
    by (simp add: r m tree_map_def)
  show ?thesis using c m r' by (simp add: same_shapes_def)
qed

lemma tgn_5: "total_grad_norm [[3, 0], [0, 4]] = 5"
proof -
  have "sqrt (3 * 3 + 4 * 4) = sqrt (5 * 5)" by simp
  then show ?thesis by (simp add: total_grad_norm_def linalg_norm_def)
qed

lemma upt_2: "[0..<2] = [0, 1]"
  by (simp add: upt_rec)

text \<open>
  Claim C3, evaluated on the code: a gradient tree with two leaves of the same shape
  (two entries each), one example whose gradient is \<open>[[3, 0], [0, 4]]\<close> (norm 5, not
  clipped at clip norm 5), batch size 1. Whatever the key, the noise multiplier and the
  normal sampler are, both leaves receive the same two draws \<open>normal rng 2 0\<close> and
  \<open>normal rng 2 1\<close>: the one key \<open>rng\<close> serves every leaf, and no fresh randomness is
  drawn per leaf.
\<close>

theorem noise_key_reused_across_leaves:
  "private_grad (\<lambda>p e. [[3, 0], [0, 4]]) normal [[0, 0], [0, 0]] [e] rng 5 noise_multiplier 1 =
     [[3 + 5 * noise_multiplier * normal rng 2 0, 0 + 5 * noise_multiplier * normal rng 2 1],
      [0 + 5 * noise_multiplier * normal rng 2 0, 4 + 5 * noise_multiplier * normal rng 2 1]]"
  by (simp add: private_grad_def aggregated_clipped_grads_def vmap_def tree_map_sum_def
      zeros_like_def add_tree_def add_tensor_def clipped_grad_def divisor_def tgn_5
      tree_map_def noise_fn_def normalize_fn_def upt_2 Let_def numeral_2_eq_2)


section \<open>Properties of the pool diagnostic\<close>

lemma map_err_length: "map_err f xs = Inr ys \<Longrightarrow> length ys = length xs"
  by (induction xs arbitrary: ys) (auto split: sum.splits)

lemma map_err_total:
  "\<forall>x \<in> set xs. \<exists>y. f x = Inr y \<Longrightarrow> \<exists>ys. map_err f xs = Inr ys"
  by (induction xs) (auto split: sum.splits)

lemma argmax_total: "row \<noteq> [] \<Longrightarrow> \<exists>i. argmax row = Inr i"
  by (cases row) (simp_all add: argmax_def)

lemma map_err_error: "map_err f xs = Inl e \<Longrightarrow> \<exists>x \<in> set xs. f x = Inl e"
  by (induction xs) (auto split: sum.splits)

lemma argmax_error: "argmax row = Inl e \<Longrightarrow> e = ValueError \<and> row = []"
  by (cases row) (simp_all add: argmax_def)

lemma argmax_axis1_error:
  "argmax_axis1 rows = Inl e \<Longrightarrow> e = ValueError \<and> (\<exists>r \<in> set rows. r = [])"
  unfolding argmax_axis1_def using map_err_error [of argmax rows e] argmax_error by blast

lemma argmax_axis1_length: "argmax_axis1 rows = Inr is \<Longrightarrow> length is = length rows"
  unfolding argmax_axis1_def by (rule map_err_length)

lemma argmax_axis1_total: "\<forall>r \<in> set rows. r \<noteq> [] \<Longrightarrow> \<exists>is. argmax_axis1 rows = Inr is"
  unfolding argmax_axis1_def by (rule map_err_total) (simp add: argmax_total)

lemma where_true_partition:
  assumes "length a = length b"
  shows "length (where_true (map2 (\<lambda>t p. t = p) a b))
       + length (where_true (map2 (\<lambda>t p. t \<noteq> p) a b)) = length a"
    and "set (where_true (map2 (\<lambda>t p. t = p) a b))
       \<union> set (where_true (map2 (\<lambda>t p. t \<noteq> p) a b)) = {..<length a}"
    and "set (where_true (map2 (\<lambda>t p. t = p) a b))
       \<inter> set (where_true (map2 (\<lambda>t p. t \<noteq> p) a b)) = {}"
proof -
  let ?n = "length a"
  have eq: "where_true (map2 (\<lambda>t p. t = p) a b) = filter (\<lambda>i. a ! i = b ! i) [0..<?n]"
    using assms by (auto simp: where_true_def intro: filter_cong)
  have ne: "where_true (map2 (\<lambda>t p. t \<noteq> p) a b) = filter (\<lambda>i. a ! i \<noteq> b ! i) [0..<?n]"
    using assms by (auto simp: where_true_def intro: filter_cong)
  show "length (where_true (map2 (\<lambda>t p. t = p) a b))
       + length (where_true (map2 (\<lambda>t p. t \<noteq> p) a b)) = length a"
    using sum_length_filter_compl [of "\<lambda>i. a ! i = b ! i" "[0..<?n]"]
    by (simp only: eq ne) (simp add: o_def)
  show "set (where_true (map2 (\<lambda>t p. t = p) a b))
       \<union> set (where_true (map2 (\<lambda>t p. t \<noteq> p) a b)) = {..<length a}"
    by (simp only: eq ne) auto
  show "set (where_true (map2 (\<lambda>t p. t = p) a b))
       \<inter> set (where_true (map2 (\<lambda>t p. t \<noteq> p) a b)) = {}"
    by (simp only: eq ne) auto
qed

lemma pool_diagnostic_cases:
  assumes "length pool_logits = length pool_labels"
  shows "(\<exists>e. pool_diagnostic pool_logits pool_labels = Inl e \<and> e \<noteq> AssertionError \<and>
            (\<exists>r \<in> set pool_logits \<union> set pool_labels. r = [])) \<or>
         (\<exists>c i. pool_diagnostic pool_logits pool_labels = Inr (c, i) \<and>
            length c + length i = length pool_labels \<and>
            set c \<union> set i = {..<length pool_labels} \<and> set c \<inter> set i = {})"
proof (cases "argmax_axis1 pool_labels")
  case (Inl e)
  have "e = ValueError \<and> (\<exists>r \<in> set pool_labels. r = [])"
    using Inl by (rule argmax_axis1_error)
  then show ?thesis using Inl by (auto simp: pool_diagnostic_def)
next
  case t: (Inr ts)
  show ?thesis
  proof (cases "argmax_axis1 pool_logits")
    case (Inl e)
    have "e = ValueError \<and> (\<exists>r \<in> set pool_logits. r = [])"
      using Inl by (rule argmax_axis1_error)
    then show ?thesis using Inl t by (auto simp: pool_diagnostic_def)
  next
    case p: (Inr ps)
    have len: "length ts = length ps" "length ts = length pool_labels"
      using argmax_axis1_length [OF t] argmax_axis1_length [OF p] assms by simp_all
    show ?thesis
      using t p len where_true_partition [OF len(1)]
      by (simp add: pool_diagnostic_def broadcast_cmp_def Let_def)
  qed
qed

lemma map_err_nth:
  "map_err f xs = Inr ys \<Longrightarrow> k < length xs \<Longrightarrow> f (xs ! k) = Inr (ys ! k)"
proof (induction xs arbitrary: ys k)
  case Nil
  then show ?case by simp
next
  case (Cons x xs)
  then show ?case by (cases k) (auto split: sum.splits)
qed

lemma pool_diagnostic_correct:
  assumes "length pool_logits = length pool_labels"
    and "pool_diagnostic pool_logits pool_labels = Inr (c, i)"
    and "k < length pool_labels"
  shows "k \<in> set c \<longleftrightarrow> argmax (pool_labels ! k) = argmax (pool_logits ! k)"
proof -
  obtain ts where t: "argmax_axis1 pool_labels = Inr ts"
    using assms(2) by (auto simp: pool_diagnostic_def split: sum.splits)
  obtain ps where p: "argmax_axis1 pool_logits = Inr ps"
    using assms(2) t by (auto simp: pool_diagnostic_def split: sum.splits)
  have len: "length ts = length pool_labels" "length ps = length pool_labels"
    using argmax_axis1_length [OF t] argmax_axis1_length [OF p] assms(1) by simp_all
  have c: "c = where_true (map2 (\<lambda>t p. t = p) ts ps)"
    using assms(2) t p len
    by (simp add: pool_diagnostic_def broadcast_cmp_def Let_def split: if_splits)
  have "argmax (pool_labels ! k) = Inr (ts ! k)" "argmax (pool_logits ! k) = Inr (ps ! k)"
    using map_err_nth [OF t [unfolded argmax_axis1_def]] map_err_nth [OF p [unfolded argmax_axis1_def]]
      assms(1,3) by simp_all
  then show ?thesis using len assms(3) by (auto simp: c where_true_def)
qed

text \<open>
  Claim C9. For a pool with as many rows of logits as rows of labels: the diagnostic never
  fails its assertion. Whenever it returns the correct and the incorrect indices, their
  counts sum to the pool size, the two lists split the indices of the pool between them,
  and the correct ones are those where the predicted label (the argmax of the logits) is
  the true label (the argmax of the one-hot labels). It does return them when no row is
  empty (an empty row has no argmax).
\<close>

theorem pool_counts_sum_to_pool_size:
  assumes "length pool_logits = length pool_labels"
  shows "pool_diagnostic pool_logits pool_labels \<noteq> Inl AssertionError \<and>
    (\<forall>c i. pool_diagnostic pool_logits pool_labels = Inr (c, i) \<longrightarrow>
       length c + length i = length pool_labels \<and>
       set c \<union> set i = {..<length pool_labels} \<and> set c \<inter> set i = {} \<and>
       (\<forall>k < length pool_labels.
          k \<in> set c \<longleftrightarrow> argmax (pool_labels ! k) = argmax (pool_logits ! k))) \<and>
    ((\<forall>r \<in> set pool_logits \<union> set pool_labels. r \<noteq> []) \<longrightarrow>
       (\<exists>c i. pool_diagnostic pool_logits pool_labels = Inr (c, i)))"
proof (intro conjI allI impI)
  note cases = pool_diagnostic_cases [OF assms]
  show "pool_diagnostic pool_logits pool_labels \<noteq> Inl AssertionError"
    using cases by auto
  show "\<exists>c i. pool_diagnostic pool_logits pool_labels = Inr (c, i)"
    if "\<forall>r \<in> set pool_logits \<union> set pool_labels. r \<noteq> []"
    using cases that by auto
  fix c i
  assume r: "pool_diagnostic pool_logits pool_labels = Inr (c, i)"
  show "length c + length i = length pool_labels"
    and "set c \<union> set i = {..<length pool_labels}" and "set c \<inter> set i = {}"
    using cases r by auto
  fix k assume "k < length pool_labels"
  then show "k \<in> set c \<longleftrightarrow> argmax (pool_labels ! k) = argmax (pool_logits ! k)"
    using pool_diagnostic_correct [OF assms r] by simp
qed

theorem pool_counts_sum_to_pool_size_witness:
  "length [[1, 2], [3, 0::real]] = length [[0, 1], [0, 1::real]] \<and>
   pool_diagnostic [[1, 2], [3, 0]] [[0, 1], [0, 1]] = Inr ([0], [1]) \<and>
   length [0::nat] + length [1::nat] = length [[0, 1], [0, 1::real]]"
proof -
  have h: "length [[1, 2], [3, 0::real]] = length [[0, 1], [0, 1::real]]" by simp
  have v: "pool_diagnostic [[1, 2], [3, 0]] [[0, 1], [0, 1]] = Inr ([0], [1])"
    by (simp add: pool_diagnostic_def argmax_axis1_def argmax_def broadcast_cmp_def
        where_true_def upt_2)
  show ?thesis
    using pool_counts_sum_to_pool_size [OF h] v by simp
qed


section \<open>Properties of the uncertainty sampler\<close>

lemma is_argsort_length: "is_argsort vs p \<Longrightarrow> length p = length vs"
  using distinct_card [of p] by (simp add: is_argsort_def)

lemma is_argsort_take_drop:
  assumes "is_argsort vs p"
  shows "\<forall>i \<in> set (take m p). \<forall>j \<in> set (drop m p). vs ! i \<le> vs ! j"
proof -
  have "sorted (map (\<lambda>i. vs ! i) (take m p @ drop m p))"
    using assms by (simp add: is_argsort_def)
  then show ?thesis
    unfolding map_append sorted_append by auto
qed

lemma is_argsort_split:
  assumes "is_argsort vs p"
  shows "set (take m p) \<union> set (drop m p) = {..<length vs}"
    and "set (take m p) \<inter> set (drop m p) = {}"
    and "distinct (take m p)" and "distinct (drop m p)"
proof -
  have d: "distinct (take m p @ drop m p)" and s: "set (take m p @ drop m p) = {..<length vs}"
    using assms by (simp_all add: is_argsort_def)
  show "set (take m p) \<union> set (drop m p) = {..<length vs}"
    using s by (simp only: set_append)
  show "set (take m p) \<inter> set (drop m p) = {}" using d unfolding distinct_append by simp
  show "distinct (take m p)" "distinct (drop m p)" using d unfolding distinct_append by simp_all
qed

text \<open>The first k of an ascending argsort: the k smallest.\<close>

lemma smallest_selected:
  assumes "is_argsort vs p" "0 \<le> k" "k \<le> int (length vs)"
  shows "length (py_take k p) = nat k \<and> distinct (py_take k p) \<and>
    set (py_take k p) \<subseteq> {..<length vs} \<and>
    (\<forall>i \<in> set (py_take k p). \<forall>j < length vs. j \<notin> set (py_take k p) \<longrightarrow> vs ! i \<le> vs ! j)"
proof -
  let ?m = "nat k"
  have sel: "py_take k p = take ?m p" using assms(2) by (simp add: py_take_def)
  have len: "length p = length vs" using assms(1) by (rule is_argsort_length)
  have "length (take ?m p) = ?m" using assms(2,3) len by simp
  moreover have "distinct (take ?m p)" using is_argsort_split(3) [OF assms(1)] .
  moreover have "set (take ?m p) \<subseteq> {..<length vs}"
    using is_argsort_split(1) [OF assms(1), of ?m] by blast
  moreover have "vs ! i \<le> vs ! j"
    if "i \<in> set (take ?m p)" "j < length vs" "j \<notin> set (take ?m p)" for i j
  proof -
    have "j \<in> set (drop ?m p)"
      using is_argsort_split(1) [OF assms(1), of ?m] that(2,3) by blast
    then show ?thesis using is_argsort_take_drop [OF assms(1), of ?m] that(1) by blast
  qed
  ultimately show ?thesis unfolding sel by blast
qed

text \<open>The first k of the reversed argsort: the k largest.\<close>

lemma largest_selected:
  assumes "is_argsort vs p" "0 \<le> k" "k \<le> int (length vs)"
  shows "length (py_take k (rev p)) = nat k \<and> distinct (py_take k (rev p)) \<and>
    set (py_take k (rev p)) \<subseteq> {..<length vs} \<and>
    (\<forall>i \<in> set (py_take k (rev p)). \<forall>j < length vs.
       j \<notin> set (py_take k (rev p)) \<longrightarrow> vs ! j \<le> vs ! i)"
proof -
  let ?m = "length vs - nat k"
  have len: "length p = length vs" using assms(1) by (rule is_argsort_length)
  have "py_take k (rev p) = take (nat k) (rev p)" using assms(2) by (simp add: py_take_def)
  also have "\<dots> = rev (drop ?m p)" using len by (simp add: take_rev)
  finally have sel: "py_take k (rev p) = rev (drop ?m p)" .
  have "length (rev (drop ?m p)) = nat k" using assms(2,3) len by simp
  moreover have "distinct (rev (drop ?m p))" using is_argsort_split(4) [OF assms(1), of ?m] by simp
  moreover have "set (rev (drop ?m p)) \<subseteq> {..<length vs}"
    using is_argsort_split(1) [OF assms(1), of ?m] by auto
  moreover have "vs ! j \<le> vs ! i"
    if "i \<in> set (rev (drop ?m p))" "j < length vs" "j \<notin> set (rev (drop ?m p))" for i j
  proof -
    have "j \<in> set (take ?m p)"
      using is_argsort_split(1) [OF assms(1), of ?m] that(2,3) by auto
    then show ?thesis using is_argsort_take_drop [OF assms(1), of ?m] that(1) by auto
  qed
  ultimately show ?thesis unfolding sel by blast
qed

lemma pool_entropy_positive:
  assumes "\<forall>p \<in> set pool_probs. \<forall>x \<in> set p. 0 < x"
  shows "pool_entropy pool_probs = map Some (map (\<lambda>p. - (\<Sum>x\<leftarrow>p. x * ln x)) pool_probs)"
  using assms by (auto simp: pool_entropy_def list_ex_iff not_le)

lemma argsort_nan_last_numbers:
  assumes "is_argsort vs (argsort vs)"
  shows "argsort_nan_last argsort (map Some vs) = argsort vs"
proof -
  let ?n = "length vs"
  have numbers: "filter (\<lambda>i. map Some vs ! i \<noteq> None) [0..<length (map Some vs)] = [0..<?n]"
    by (auto intro: filter_True)
  have nans: "filter (\<lambda>i. map Some vs ! i = None) [0..<length (map Some vs)] = []"
    by (auto simp: filter_empty_conv)
  have vals: "map (\<lambda>i. the (map Some vs ! i)) [0..<?n] = vs"
    by (intro nth_equalityI) simp_all
  have "map (\<lambda>r. [0..<?n] ! r) (argsort vs) = argsort vs"
    using assms by (intro map_idI) (auto simp: is_argsort_def)
  then show ?thesis
    by (simp only: argsort_nan_last_def Let_def numbers nans vals) simp
qed

lemma entropy_quarter_le_half:
  "- (1 / 4 * ln (1 / 4) + 3 / 4 * ln (3 / 4)) \<le> - (1 / 2 * ln (1 / 2) + 1 / 2 * ln (1 / 2 :: real))"
proof -
  have l4: "ln (1 / 4 :: real) = - 2 * ln 2"
    using ln_realpow [of 2 2] by (simp add: ln_div)
  have l34: "ln (3 / 4 :: real) = ln 3 - 2 * ln 2"
    using ln_realpow [of 2 2] by (simp add: ln_div)
  have l2: "ln (1 / 2 :: real) = - ln 2" by (simp add: ln_div)
  have "ln (16 :: real) \<le> ln 27" by simp
  moreover have "ln (16 :: real) = 4 * ln 2" using ln_realpow [of 2 4] by simp
  moreover have "ln (27 :: real) = 3 * ln 3" using ln_realpow [of 3 3] by simp
  ultimately have "4 * ln (2 :: real) \<le> 3 * ln 3" by simp
  then show ?thesis unfolding l4 l34 l2 by (simp add: algebra_simps)
qed

lemma is_argsort_low_high_low: "a \<le> b \<Longrightarrow> is_argsort [a, b, a] [0, Suc (Suc 0), Suc 0]"
  by (auto simp: is_argsort_def less_Suc_eq)

text \<open>
  Claim C5, as amended. Under the entropy criterion (flag 0) the entropy of a pool example
  is minus the sum of \<open>p * ln p\<close> over its softmax probabilities. When all the softmax
  probabilities of the pool are above 0, the argsort sorts the entropies, and the number
  \<open>k\<close> of extra points is at least 1 and at most the pool size, the sampler returns
  exactly \<open>k\<close> indices of the pool, no index twice, and the entropy of every selected
  index is at least the entropy of every index of the pool that is not selected.
\<close>

theorem entropy_selects_most_uncertain:
  assumes "flag_uncertain F = 0"
    and "\<forall>row \<in> set pool_logits. \<forall>x \<in> set (softmax row). 0 < x"
    and "is_argsort (map (\<lambda>row. - (\<Sum>x\<leftarrow>softmax row. x * ln x)) pool_logits)
           (argsort (map (\<lambda>row. - (\<Sum>x\<leftarrow>softmax row. x * ln x)) pool_logits))"
    and "0 < flag_n_extra F" "flag_n_extra F \<le> int (length pool_logits)"
  shows "\<exists>sel. pool_uncertain_indices softmax argsort permutation F pool_logits g = Inr (sel, g) \<and>
    int (length sel) = flag_n_extra F \<and> distinct sel \<and> set sel \<subseteq> {..<length pool_logits} \<and>
    (\<forall>i \<in> set sel. \<forall>j < length pool_logits. j \<notin> set sel \<longrightarrow>
       - (\<Sum>x\<leftarrow>softmax (pool_logits ! j). x * ln x)
         \<le> - (\<Sum>x\<leftarrow>softmax (pool_logits ! i). x * ln x)) \<and>
    (\<forall>j < length pool_logits.
       pool_entropy (map softmax pool_logits) ! j =
         Some (- (\<Sum>x\<leftarrow>softmax (pool_logits ! j). x * ln x)))"
proof -
  let ?H = "\<lambda>row. - (\<Sum>x\<leftarrow>softmax row. x * ln x)"
  let ?ents = "map ?H pool_logits"
  let ?sel = "py_take (flag_n_extra F) (rev (argsort ?ents))"
  have ent: "pool_entropy (map softmax pool_logits) = map Some ?ents"
    using pool_entropy_positive [of "map softmax pool_logits"] assms(2) by (simp add: o_def)
  have len: "length ?ents = length pool_logits" by simp
  have k0: "0 \<le> flag_n_extra F" using assms(4) by simp
  have k: "flag_n_extra F \<le> int (length ?ents)" using assms(5) by simp
  note sel = largest_selected [OF assms(3) k0 k]
  have count: "int (length ?sel) = flag_n_extra F" using sel k0 by simp
  have nonempty: "pool_logits \<noteq> []" "?sel \<noteq> []" using assms(4,5) count by auto
  have selection: "entropy_selection argsort (map Some ?ents) (flag_n_extra F) = ?sel"
    by (simp only: entropy_selection_def Let_def
        argsort_nan_last_numbers [where argsort = argsort and vs = ?ents, OF assms(3)])
  have branch: "entropy_indices argsort (map softmax pool_logits) (flag_n_extra F) = Inr ?sel"
    by (simp only: entropy_indices_def Let_def ent selection) (use nonempty in simp)
  have run: "pool_uncertain_indices softmax argsort permutation F pool_logits g = Inr (?sel, g)"
    using assms(1) by (simp add: pool_uncertain_indices_def Let_def branch)
  have dom: "\<forall>i \<in> set ?sel. \<forall>j < length pool_logits. j \<notin> set ?sel \<longrightarrow>
      ?H (pool_logits ! j) \<le> ?H (pool_logits ! i)"
  proof (intro ballI allI impI)
    fix i j assume i: "i \<in> set ?sel" and j: "j < length pool_logits" "j \<notin> set ?sel"
    have "i < length pool_logits" using sel i by auto
    moreover have "?ents ! j \<le> ?ents ! i" using sel i j by simp
    ultimately show "?H (pool_logits ! j) \<le> ?H (pool_logits ! i)" using j(1) by simp
  qed
  have vals: "\<forall>j < length pool_logits.
      pool_entropy (map softmax pool_logits) ! j = Some (?H (pool_logits ! j))"
    by (simp add: ent)
  have sub: "set ?sel \<subseteq> {..<length pool_logits}" and dist: "distinct ?sel"
    using sel by simp_all
  show ?thesis using run count dist sub dom vals by blast
qed


lemma upt_3: "[0..<3] = [0, 1, 2]"
  by (simp add: upt_rec)

lemma softmax_example:
  "map (\<lambda>r. map (\<lambda>x. exp x / sum_list (map exp r)) r) [[0, ln 3], [0, 0], [0, ln (3::real)]] =
     [[1 / 4, 3 / 4], [1 / 2, 1 / 2], [1 / 4, 3 / 4]]"
  by simp

theorem entropy_selects_most_uncertain_witness:
  "flag_uncertain \<lparr>flag_dpsgd = True, flag_noise_multiplier = 11 / 10, flag_l2_norm_clip = 1,
      flag_batch_size = 256, flag_epochs = 100, flag_seed = 0, flag_uncertain = 0,
      flag_n_extra = 2\<rparr> = 0 \<and>
   (0::int) < 2 \<and> (2::int) \<le> int (length [[0, ln 3], [0, 0], [0, ln (3::real)]]) \<and>
   map (\<lambda>r. map (\<lambda>x. exp x / sum_list (map exp r)) r) [[0, ln 3], [0, 0], [0, ln (3::real)]] =
     [[1 / 4, 3 / 4], [1 / 2, 1 / 2], [1 / 4, 3 / 4]] \<and>
   is_argsort [- (1 / 4 * ln (1 / 4) + 3 / 4 * ln (3 / 4)), - (1 / 2 * ln (1 / 2) + 1 / 2 * ln (1 / 2)),
               - (1 / 4 * ln (1 / 4) + 3 / 4 * ln (3 / 4))] [0, Suc (Suc 0), Suc 0] \<and>
   pool_uncertain_indices (\<lambda>r. map (\<lambda>x. exp x / sum_list (map exp r)) r)
     (\<lambda>vs. [0, Suc (Suc 0), Suc 0]) (\<lambda>g n. ([], g))
     \<lparr>flag_dpsgd = True, flag_noise_multiplier = 11 / 10, flag_l2_norm_clip = 1,
      flag_batch_size = 256, flag_epochs = 100, flag_seed = 0, flag_uncertain = 0,
      flag_n_extra = 2\<rparr>
     [[0, ln 3], [0, 0], [0, ln 3]] () = Inr ([Suc 0, Suc (Suc 0)], ())"
proof -
  let ?F = "\<lparr>flag_dpsgd = True, flag_noise_multiplier = 11 / 10, flag_l2_norm_clip = 1,
      flag_batch_size = 256, flag_epochs = 100, flag_seed = 0, flag_uncertain = 0,
      flag_n_extra = 2\<rparr>"
  let ?softmax = "\<lambda>r::real list. map (\<lambda>x. exp x / sum_list (map exp r)) r"
  let ?argsort = "\<lambda>vs::real list. [0, Suc (Suc 0), Suc 0]"
  let ?pool = "[[0, ln 3], [0, 0], [0, ln (3::real)]]"
  let ?low = "- (1 / 4 * ln (1 / 4) + 3 / 4 * ln (3 / 4)) :: real"
  let ?high = "- (1 / 2 * ln (1 / 2) + 1 / 2 * ln (1 / 2)) :: real"
  have u: "flag_uncertain ?F = 0" by simp
  have pos: "\<forall>row \<in> set ?pool. \<forall>x \<in> set (?softmax row). 0 < x"
    by (simp add: add_pos_pos)
  have ents: "map (\<lambda>row. - (\<Sum>x\<leftarrow>?softmax row. x * ln x)) ?pool = [?low, ?high, ?low]"
    by simp
  have sorted3: "is_argsort [?low, ?high, ?low] [0, Suc (Suc 0), Suc 0]"
    using entropy_quarter_le_half by (rule is_argsort_low_high_low)
  have s: "is_argsort (map (\<lambda>row. - (\<Sum>x\<leftarrow>?softmax row. x * ln x)) ?pool)
      (?argsort (map (\<lambda>row. - (\<Sum>x\<leftarrow>?softmax row. x * ln x)) ?pool))"
    using sorted3 by (simp only: ents)
  have k: "0 < flag_n_extra ?F" "flag_n_extra ?F \<le> int (length ?pool)" by simp_all
  note t = entropy_selects_most_uncertain [where F = ?F and softmax = ?softmax
      and argsort = ?argsort and pool_logits = ?pool and permutation = "\<lambda>g n. ([], g)"
      and g = "()", OF u pos s k]
  then obtain sel where run: "pool_uncertain_indices ?softmax ?argsort (\<lambda>g n. ([], g)) ?F ?pool ()
      = Inr (sel, ())"
    by blast
  have v: "pool_uncertain_indices ?softmax ?argsort (\<lambda>g n. ([], g)) ?F ?pool ()
      = Inr ([Suc 0, Suc (Suc 0)], ())"
    by (simp add: pool_uncertain_indices_def entropy_indices_def entropy_selection_def
        argsort_nan_last_def pool_entropy_def py_take_def upt_rec Let_def)
  show ?thesis using run v sorted3 softmax_example by simp
qed

text \<open>
  Claim C5 as it is stated fails on the code. With \<open>k = 0\<close>, which is at most the pool
  size, the sampler selects nothing and the log line 309 raises ValueError. And a row
  with a probability of 0 has the entropy NaN, sorts last, comes first after the reversal
  and is selected before the row \<open>[1/2, 1/2]\<close>, whose entropy is the largest there is.
\<close>

theorem entropy_fails_without_selection_or_with_nan:
  "entropy_indices stable_argsort [[1 / 2, 1 / 2], [1 / 4, 3 / 4]] 0 = Inl ValueError \<and>
   pool_entropy [[1, 0], [1 / 2, 1 / 2]] ! 0 = None \<and>
   entropy_indices stable_argsort [[1, 0], [1 / 2, 1 / 2]] 1 = Inr [0]"
  by (simp add: entropy_indices_def entropy_selection_def argsort_nan_last_def pool_entropy_def
      stable_argsort_def py_take_def upt_rec Let_def)

lemma row_diff_value:
  "2 \<le> length r \<Longrightarrow> row_diff r = Inr (sort r ! (length r - 1) - sort r ! (length r - 2))"
  by (simp add: row_diff_def Let_def)

lemma map_err_all_Inr: "\<forall>x \<in> set xs. f x = Inr (h x) \<Longrightarrow> map_err f xs = Inr (map h xs)"
  by (induction xs) simp_all

lemma pool_probs_diff_value:
  assumes "\<forall>r \<in> set pool_probs. 2 \<le> length r"
  shows "pool_probs_diff pool_probs =
    Inr (map (\<lambda>r. sort r ! (length r - 1) - sort r ! (length r - 2)) pool_probs)"
  unfolding pool_probs_diff_def using assms by (intro map_err_all_Inr) (simp add: row_diff_value)

lemma min_list_positive: "margins \<noteq> [] \<Longrightarrow> 0 < min_list margins \<longleftrightarrow> (\<forall>m \<in> set margins. 0 < (m::real))"
  by (simp add: min_list_Min)

lemma example_margins: "pool_probs_diff [[9 / 10, 1 / 10], [1 / 2, 1 / 2]] = Inr [4 / 5, 0]"
  by (simp add: pool_probs_diff_def row_diff_def)

text \<open>
  Claim C6. Under the margin criterion (flag 1) the score of a pool example is the
  largest of its probabilities minus the second largest (the last two entries of the
  row sorted ascending); the probabilities \<open>[[0.9, 0.1], [0.5, 0.5]]\<close> give the margins
  \<open>[0.8, 0]\<close>. If any margin is at most 0, a margin of exactly 0 included, the sampler
  fails with AssertionError and returns no indices, as it does on this example. If all
  margins are above 0 it returns the first \<open>k\<close> indices of the argsort of the margins
  (when there is one at least), which for a sorting argsort are \<open>k\<close> distinct indices
  whose margins are at most the margin of every index not selected.
\<close>

theorem margin_assertion_rejects_ties:
  "pool_probs_diff [[9 / 10, 1 / 10], [1 / 2, 1 / 2]] = Inr [4 / 5, 0] \<and>
   difference_indices argsort [[9 / 10, 1 / 10], [1 / 2, 1 / 2]] n_extra = Inl AssertionError \<and>
   ((\<forall>r \<in> set pool_probs. 2 \<le> length r) \<longrightarrow>
      pool_probs_diff pool_probs =
        Inr (map (\<lambda>r. sort r ! (length r - 1) - sort r ! (length r - 2)) pool_probs)) \<and>
   (pool_probs_diff pool_probs = Inr margins \<and> (\<exists>m \<in> set margins. m \<le> 0) \<longrightarrow>
      difference_indices argsort pool_probs n_extra = Inl AssertionError) \<and>
   (pool_probs_diff pool_probs = Inr margins \<and> margins \<noteq> [] \<and> (\<forall>m \<in> set margins. 0 < m) \<and>
    py_take n_extra (argsort margins) \<noteq> [] \<longrightarrow>
      difference_indices argsort pool_probs n_extra = Inr (py_take n_extra (argsort margins))) \<and>
   (is_argsort margins (argsort margins) \<and> 0 \<le> n_extra \<and> n_extra \<le> int (length margins) \<longrightarrow>
      int (length (py_take n_extra (argsort margins))) = n_extra \<and>
      distinct (py_take n_extra (argsort margins)) \<and>
      set (py_take n_extra (argsort margins)) \<subseteq> {..<length margins} \<and>
      (\<forall>i \<in> set (py_take n_extra (argsort margins)). \<forall>j < length margins.
         j \<notin> set (py_take n_extra (argsort margins)) \<longrightarrow> margins ! i \<le> margins ! j)) \<and>
   (flag_uncertain F = 1 \<longrightarrow>
      pool_uncertain_indices softmax argsort permutation F pool_logits g =
        (case difference_indices argsort (map softmax pool_logits) (flag_n_extra F) of
           Inl e \<Rightarrow> Inl e
         | Inr indices \<Rightarrow> Inr (indices, g)))"
proof (intro conjI)
  show "pool_probs_diff [[9 / 10, 1 / 10], [1 / 2, 1 / 2]] = Inr [4 / 5, 0]"
    by (rule example_margins)
  show "difference_indices argsort [[9 / 10, 1 / 10], [1 / 2, 1 / 2]] n_extra = Inl AssertionError"
    by (simp add: difference_indices_def example_margins)
  show "(\<forall>r \<in> set pool_probs. 2 \<le> length r) \<longrightarrow>
      pool_probs_diff pool_probs =
        Inr (map (\<lambda>r. sort r ! (length r - 1) - sort r ! (length r - 2)) pool_probs)"
    using pool_probs_diff_value by blast
  show "pool_probs_diff pool_probs = Inr margins \<and> (\<exists>m \<in> set margins. m \<le> 0) \<longrightarrow>
      difference_indices argsort pool_probs n_extra = Inl AssertionError"
  proof
    assume a: "pool_probs_diff pool_probs = Inr margins \<and> (\<exists>m \<in> set margins. m \<le> 0)"
    then have ne: "margins \<noteq> []" by auto
    have "\<not> 0 < min_list margins"
      using a min_list_positive [OF ne] by (auto simp: not_less)
    then show "difference_indices argsort pool_probs n_extra = Inl AssertionError"
      using a ne by (simp add: difference_indices_def)
  qed
  show "pool_probs_diff pool_probs = Inr margins \<and> margins \<noteq> [] \<and> (\<forall>m \<in> set margins. 0 < m) \<and>
    py_take n_extra (argsort margins) \<noteq> [] \<longrightarrow>
      difference_indices argsort pool_probs n_extra = Inr (py_take n_extra (argsort margins))"
    using min_list_positive [of margins] by (simp add: difference_indices_def Let_def)
  show "is_argsort margins (argsort margins) \<and> 0 \<le> n_extra \<and> n_extra \<le> int (length margins) \<longrightarrow>
      int (length (py_take n_extra (argsort margins))) = n_extra \<and>
      distinct (py_take n_extra (argsort margins)) \<and>
      set (py_take n_extra (argsort margins)) \<subseteq> {..<length margins} \<and>
      (\<forall>i \<in> set (py_take n_extra (argsort margins)). \<forall>j < length margins.
         j \<notin> set (py_take n_extra (argsort margins)) \<longrightarrow> margins ! i \<le> margins ! j)"
    using smallest_selected [of margins "argsort margins" n_extra] by simp
  show "flag_uncertain F = 1 \<longrightarrow>
      pool_uncertain_indices softmax argsort permutation F pool_logits g =
        (case difference_indices argsort (map softmax pool_logits) (flag_n_extra F) of
           Inl e \<Rightarrow> Inl e
         | Inr indices \<Rightarrow> Inr (indices, g))"
    by (simp add: pool_uncertain_indices_def Let_def)
qed

lemma is_argsort_swap2: "a \<le> b \<Longrightarrow> is_argsort [b, a] [Suc 0, 0]"
  by (auto simp: is_argsort_def less_Suc_eq)

theorem margin_assertion_rejects_ties_witness:
  "pool_probs_diff [[9 / 10, 1 / 10], [1 / 2, 1 / 2]] = Inr [4 / 5, 0] \<and>
   (\<exists>m \<in> set [4 / 5, 0::real]. m \<le> 0) \<and>
   difference_indices (\<lambda>vs. [Suc 0, 0]) [[9 / 10, 1 / 10], [1 / 2, 1 / 2]] 1 = Inl AssertionError \<and>
   list_all (\<lambda>r. 2 \<le> length r) [[9 / 10, 1 / 10], [3 / 5, 2 / 5::real]] \<and>
   pool_probs_diff [[9 / 10, 1 / 10], [3 / 5, 2 / 5]] = Inr [4 / 5, 1 / 5] \<and>
   list_all (\<lambda>m. 0 < m) [4 / 5, 1 / 5::real] \<and> py_take 1 [Suc 0, 0::nat] \<noteq> [] \<and>
   is_argsort [4 / 5, 1 / 5] [Suc 0, 0] \<and>
   difference_indices (\<lambda>vs. [Suc 0, 0]) [[9 / 10, 1 / 10], [3 / 5, 2 / 5]] 1 = Inr [Suc 0] \<and>
   flag_uncertain \<lparr>flag_dpsgd = True, flag_noise_multiplier = 11 / 10, flag_l2_norm_clip = 1,
      flag_batch_size = 256, flag_epochs = 100, flag_seed = 0, flag_uncertain = 1,
      flag_n_extra = 1\<rparr> = 1 \<and>
   pool_uncertain_indices (\<lambda>r. r) (\<lambda>vs. [Suc 0, 0]) (\<lambda>g n. ([], g))
     \<lparr>flag_dpsgd = True, flag_noise_multiplier = 11 / 10, flag_l2_norm_clip = 1,
      flag_batch_size = 256, flag_epochs = 100, flag_seed = 0, flag_uncertain = 1,
      flag_n_extra = 1\<rparr>
     [[9 / 10, 1 / 10], [1 / 2, 1 / 2]] () = Inl AssertionError"
proof -
  let ?F = "\<lparr>flag_dpsgd = True, flag_noise_multiplier = 11 / 10, flag_l2_norm_clip = 1,
      flag_batch_size = 256, flag_epochs = 100, flag_seed = 0, flag_uncertain = 1,
      flag_n_extra = 1\<rparr>"
  let ?argsort = "\<lambda>vs::real list. [Suc 0, 0]"
  let ?tie = "[[9 / 10, 1 / 10], [1 / 2, 1 / 2::real]]"
  let ?ok = "[[9 / 10, 1 / 10], [3 / 5, 2 / 5::real]]"
  have m: "pool_probs_diff ?ok = Inr [4 / 5, 1 / 5]"
    by (simp add: pool_probs_diff_def row_diff_def)
  have s: "is_argsort [4 / 5, 1 / 5] (?argsort [4 / 5, 1 / 5])"
    by (rule is_argsort_swap2) simp
  note tie = margin_assertion_rejects_ties [where argsort = ?argsort and n_extra = 1
      and pool_probs = ?tie and margins = "[4 / 5, 0]" and F = ?F and softmax = "\<lambda>r. r"
      and permutation = "\<lambda>g n. ([], g)" and pool_logits = ?tie and g = "()"]
  note ok = margin_assertion_rejects_ties [where argsort = ?argsort and n_extra = 1
      and pool_probs = ?ok and margins = "[4 / 5, 1 / 5]" and F = ?F and softmax = "\<lambda>r. r"
      and permutation = "\<lambda>g n. ([], g)" and pool_logits = ?tie and g = "()"]
  have e: "difference_indices ?argsort ?tie 1 = Inl AssertionError"
    using tie by blast
  have u: "pool_uncertain_indices (\<lambda>r. r) ?argsort (\<lambda>g n. ([], g)) ?F ?tie () = Inl AssertionError"
    using tie by (simp add: e)
  have t: "difference_indices ?argsort ?ok 1 = Inr (py_take 1 (?argsort [4 / 5, 1 / 5]))"
    using ok m by (simp add: py_take_def)
  show ?thesis
    using tie e u t m s by (simp add: py_take_def)
qed


section \<open>Where the randomness comes from\<close>

lemma run_batches_private:
  assumes "flag_dpsgd F"
  shows "run_batches L F key c batches opt_state =
    foldl (\<lambda>s (i, b). private_update L F key i s (dummy_dim b)) opt_state
      (zip [c..<c + length batches] batches)"
proof (induction batches arbitrary: c opt_state)
  case Nil
  show ?case by simp
next
  case (Cons b batches)
  have "[c..<c + length (b # batches)] = c # [Suc c..<Suc c + length batches]"
    by (simp add: upt_rec)
  then show ?case using assms Cons.IH [of "Suc c"] by simp
qed

text \<open>
  Claim C7. The choice of the pool examples does not depend on the state in which the
  global generator is found when \<open>main\<close> starts: the seed flag replaces it (line 187).
  Under the random criterion the indices are the first entries of the permutation drawn
  from the state that the seed, and the loading after it, determine. In a private epoch
  the update of step \<open>i\<close> is \<open>private_grad\<close> with the key made by folding \<open>i\<close> into
  \<open>PRNGKey\<close> of the seed flag, and the noise that \<open>private_grad\<close> adds to entry \<open>j\<close> of a
  leaf is the standard deviation times entry \<open>j\<close> of the normal array of that key and the
  leaf's shape. So two runs with the same seed add the same noise at every step.
\<close>

theorem randomness_from_seed_and_step:
  "main_selection seeded loading softmax argsort permutation F pool_logits pool_labels g =
     main_selection seeded loading softmax argsort permutation F pool_logits pool_labels g' \<and>
   (flag_uncertain F = 2 \<and> 0 \<le> flag_seed F \<and> flag_seed F < 2 ^ 32 \<and>
    pool_diagnostic pool_logits pool_labels = Inr d \<longrightarrow>
      main_selection seeded loading softmax argsort permutation F pool_logits pool_labels g =
        (let indices = py_take (flag_n_extra F)
               (fst (permutation (loading (seeded (flag_seed F))) (length pool_logits)))
         in if flag_n_extra F = int (length indices) then Inr indices else Inl AssertionError)) \<and>
   (flag_dpsgd F \<longrightarrow>
      run_epoch L F batches opt_state =
        foldl (\<lambda>s (i, b).
            lib_opt_update L i
              (private_grad (lib_grad_loss L) (lib_normal L) (lib_get_params L s) (dummy_dim b)
                 (lib_fold_in L (lib_PRNGKey L (flag_seed F)) i)
                 (flag_l2_norm_clip F) (flag_noise_multiplier F) (flag_batch_size F))
              s)
          opt_state (zip [0..<length batches] batches)) \<and>
   (\<forall>j < length n.
      noise_fn normal rng std_dev n ! j = n ! j + std_dev * normal rng (length n) j)"
proof (intro conjI)
  show "main_selection seeded loading softmax argsort permutation F pool_logits pool_labels g =
     main_selection seeded loading softmax argsort permutation F pool_logits pool_labels g'"
    by (simp add: main_selection_def npr_seed_def)
  show "flag_uncertain F = 2 \<and> 0 \<le> flag_seed F \<and> flag_seed F < 2 ^ 32 \<and>
    pool_diagnostic pool_logits pool_labels = Inr d \<longrightarrow>
      main_selection seeded loading softmax argsort permutation F pool_logits pool_labels g =
        (let indices = py_take (flag_n_extra F)
               (fst (permutation (loading (seeded (flag_seed F))) (length pool_logits)))
         in if flag_n_extra F = int (length indices) then Inr indices else Inl AssertionError)"
    by (simp add: main_selection_def npr_seed_def pool_uncertain_indices_def Let_def
        split: prod.splits)
  show "flag_dpsgd F \<longrightarrow>
      run_epoch L F batches opt_state =
        foldl (\<lambda>s (i, b).
            lib_opt_update L i
              (private_grad (lib_grad_loss L) (lib_normal L) (lib_get_params L s) (dummy_dim b)
                 (lib_fold_in L (lib_PRNGKey L (flag_seed F)) i)
                 (flag_l2_norm_clip F) (flag_noise_multiplier F) (flag_batch_size F))
              s)
          opt_state (zip [0..<length batches] batches)"
  proof
    assume "flag_dpsgd F"
    from run_batches_private [OF this, of L "lib_PRNGKey L (flag_seed F)" 0 batches opt_state]
    show "run_epoch L F batches opt_state =
        foldl (\<lambda>s (i, b).
            lib_opt_update L i
              (private_grad (lib_grad_loss L) (lib_normal L) (lib_get_params L s) (dummy_dim b)
                 (lib_fold_in L (lib_PRNGKey L (flag_seed F)) i)
                 (flag_l2_norm_clip F) (flag_noise_multiplier F) (flag_batch_size F))
              s)
          opt_state (zip [0..<length batches] batches)"
      by (simp add: run_epoch_def private_update_def Let_def)
  qed
  show "\<forall>j < length n.
      noise_fn normal rng std_dev n ! j = n ! j + std_dev * normal rng (length n) j"
    by (simp add: noise_fn_def)
qed

lemma tgn_1: "total_grad_norm [[1]] = 1"
  by (simp add: total_grad_norm_def linalg_norm_def)

theorem randomness_from_seed_and_step_witness:
  "flag_dpsgd \<lparr>flag_dpsgd = True, flag_noise_multiplier = 1, flag_l2_norm_clip = 1,
      flag_batch_size = 1, flag_epochs = 1, flag_seed = 5, flag_uncertain = 2,
      flag_n_extra = 1\<rparr> \<and>
   pool_diagnostic [[1, 2], [3, 0]] [[0, 1], [0, 1]] = Inr ([0], [1]) \<and>
   main_selection (\<lambda>s. nat s) (\<lambda>g. g + 1) (\<lambda>r. r) (\<lambda>vs. []) (\<lambda>g n. (rev [0..<n], g + 1))
     \<lparr>flag_dpsgd = True, flag_noise_multiplier = 1, flag_l2_norm_clip = 1,
      flag_batch_size = 1, flag_epochs = 1, flag_seed = 5, flag_uncertain = 2,
      flag_n_extra = 1\<rparr>
     [[1, 2], [3, 0]] [[0, 1], [0, 1]] (0::nat) = Inr [1] \<and>
   main_selection (\<lambda>s. nat s) (\<lambda>g. g + 1) (\<lambda>r. r) (\<lambda>vs. []) (\<lambda>g n. (rev [0..<n], g + 1))
     \<lparr>flag_dpsgd = True, flag_noise_multiplier = 1, flag_l2_norm_clip = 1,
      flag_batch_size = 1, flag_epochs = 1, flag_seed = 5, flag_uncertain = 2,
      flag_n_extra = 1\<rparr>
     [[1, 2], [3, 0]] [[0, 1], [0, 1]] (7::nat) = Inr [1] \<and>
   run_epoch
     \<lparr>lib_grad_loss = \<lambda>p b. [[1]], lib_normal = \<lambda>k s i. real k, lib_PRNGKey = \<lambda>s. nat s,
      lib_fold_in = \<lambda>k i. 10 * k + i,
      lib_opt_update = \<lambda>i g s. map2 (map2 (\<lambda>x y. x - y / 10)) s g,
      lib_get_params = \<lambda>s. s\<rparr>
     \<lparr>flag_dpsgd = True, flag_noise_multiplier = 1, flag_l2_norm_clip = 1,
      flag_batch_size = 1, flag_epochs = 1, flag_seed = 5, flag_uncertain = 2,
      flag_n_extra = 1\<rparr>
     [[()], [()]] [[0]] = [[- 103 / 10]] \<and>
   noise_fn (\<lambda>k s i. real k) (50::nat) 1 [1] ! 0 = 51"
proof -
  let ?F = "\<lparr>flag_dpsgd = True, flag_noise_multiplier = 1, flag_l2_norm_clip = 1,
      flag_batch_size = 1, flag_epochs = 1, flag_seed = 5, flag_uncertain = 2,
      flag_n_extra = 1\<rparr>"
  let ?L = "\<lparr>lib_grad_loss = \<lambda>(p::tree) (b::unit list). [[1::real]],
      lib_normal = \<lambda>(k::nat) (s::nat) (i::nat). real k, lib_PRNGKey = \<lambda>s. nat s,
      lib_fold_in = \<lambda>k i. 10 * k + i,
      lib_opt_update = \<lambda>(i::nat) (g::tree) (s::tree). map2 (map2 (\<lambda>x y. x - y / 10)) s g,
      lib_get_params = \<lambda>s. s\<rparr>"
  let ?perm = "\<lambda>(g::nat) n. (rev [0..<n], g + 1)"
  have d: "pool_diagnostic [[1, 2], [3, 0]] [[0, 1], [0, 1]] = Inr ([0], [1])"
    by (simp add: pool_diagnostic_def argmax_axis1_def argmax_def broadcast_cmp_def
        where_true_def upt_2)
  note t = randomness_from_seed_and_step [where F = ?F and L = ?L and seeded = "\<lambda>s. nat s"
      and loading = "\<lambda>g. g + 1" and softmax = "\<lambda>r. r" and argsort = "\<lambda>vs. []"
      and permutation = ?perm and pool_logits = "[[1, 2], [3, 0]]"
      and pool_labels = "[[0, 1], [0, 1]]" and d = "([0], [1])" and g = 0 and g' = 7
      and batches = "[[()], [()]]" and opt_state = "[[0]]" and n = "[1]" and rng = 50
      and normal = "\<lambda>k s i. real k" and std_dev = 1]
  note t1 = conjunct1 [OF t]
  note t2 = conjunct1 [OF conjunct2 [OF t]]
  note t3 = conjunct1 [OF conjunct2 [OF conjunct2 [OF t]]]
  note t4 = conjunct2 [OF conjunct2 [OF conjunct2 [OF t]]]
  have sel: "main_selection (\<lambda>s. nat s) (\<lambda>g. g + 1) (\<lambda>r. r) (\<lambda>vs. []) ?perm ?F
       [[1, 2], [3, 0]] [[0, 1], [0, 1]] (0::nat) = Inr [1]"
    using t2 d by (simp add: py_take_def upt_2)
  have same: "main_selection (\<lambda>s. nat s) (\<lambda>g. g + 1) (\<lambda>r. r) (\<lambda>vs. []) ?perm ?F
       [[1, 2], [3, 0]] [[0, 1], [0, 1]] (7::nat) = Inr [1]"
    by (simp only: t1 [symmetric] sel)
  have run: "run_epoch ?L ?F [[()], [()]] [[0]] = [[- 103 / 10]]"
    using t3
    by (simp add: upt_2 private_grad_def aggregated_clipped_grads_def vmap_def dummy_dim_def
        tree_map_sum_def zeros_like_def add_tree_def add_tensor_def clipped_grad_def divisor_def
        tgn_1 tree_map_def noise_fn_def normalize_fn_def Let_def)
  have nz: "noise_fn (\<lambda>k s i. real k) (50::nat) 1 [1] ! 0 = 51"
    using t4 by simp
  show ?thesis using d same sel run nz by simp
qed


section \<open>The accountant as written\<close>

text \<open>
  With the \<^verbatim>\<open>range\<close> of Python 2 the function would return what the accountant
  computes for the sampling ratio \<open>batch_size / num_examples\<close>, after the warning if
  there is one.
\<close>

lemma compute_epsilon_python2:
  assumes "num_examples \<noteq> 0"
  shows "compute_epsilon Python2 F compute_rdp get_privacy_spent steps num_examples target_delta
      warned =
    (let orders = linspace (11 / 10) (109 / 10) 99 @ map real_of_int [11..63];
         q = real_of_int (flag_batch_size F) / real_of_int num_examples
     in (Inr (fst (get_privacy_spent orders
                (compute_rdp q (flag_noise_multiplier F) steps orders) target_delta)),
         if 1 < real_of_int num_examples * target_delta
         then warned @ [''Your delta might be too high.''] else warned))"
  using assms
  by (simp add: compute_epsilon_def list_add_range_def Let_def split: prod.splits)

text \<open>
  Claim C4, evaluated on the code: with \<open>steps = 1\<close>, \<open>num_examples = 200000\<close> and
  \<open>target_delta = 1e-5\<close> (their product is 2, above 1) \<open>compute_epsilon\<close> issues the
  warning and then raises TypeError at line 178, where a range is added to a list; it
  returns no epsilon. For every input it ends in an error.
\<close>

theorem compute_epsilon_raises_type_error:
  "compute_epsilon Python3 F compute_rdp get_privacy_spent 1 200000 (1 / 100000) [] =
     (Inl TypeError, [''Your delta might be too high.'']) \<and>
   (\<exists>e. fst (compute_epsilon Python3 F compute_rdp get_privacy_spent steps num_examples
             target_delta warned) = Inl e)"
  by (simp add: compute_epsilon_def list_add_range_def Let_def)

end
